theory Spec2Isabelle
  imports Complex_Main "HOL-Library.AList"
begin

section \<open>PollRoom: vote submission and result aggregation\<close>

text \<open>
  A shallow embedding of the route handlers
  \<^verbatim>\<open>src/app/api/polls/[id]/vote/route.ts\<close> (POST),
  \<^verbatim>\<open>src/app/api/polls/[id]/results/route.ts\<close> (GET),
  \<^verbatim>\<open>src/app/api/rooms/[code]/route.ts\<close> (GET) and of the helpers they call in
  \<^verbatim>\<open>src/lib/utils.ts\<close> and \<^verbatim>\<open>src/lib/kv.ts\<close>.

  Strings are \<^typ>\<open>string\<close>; the characters that matter to the code (identifiers,
  room codes, option keys, decimal numerals) are ASCII. The numbers stored in a poll's
  options are integers, as the spec has them. JavaScript holds a number as an IEEE-754
  binary64 value: a stored integer is read as the nearest double, the counter of a loop
  over a rating range is incremented in double arithmetic, and the percentage is
  computed in it; each of these roundings is written out. A handler that never returns
  is a possible outcome of a request, next to the responses.
\<close>

subsection \<open>JavaScript strings and numbers\<close>

definition digit_char :: "nat \<Rightarrow> char" where
  "digit_char d = ''0123456789'' ! d"

fun nat_digits :: "nat \<Rightarrow> string" where
  "nat_digits n =
     (if n < 10 then [digit_char n] else nat_digits (n div 10) @ [digit_char (n mod 10)])"

declare nat_digits.simps [simp del]

text \<open>\<^verbatim>\<open>i.toString()\<close> on an integer-valued number: its decimal digits. (JavaScript
  prints the shortest digits that identify the double. Up to a magnitude of \<open>2^54\<close>
  these are all the digits of the integer, and a loop over a rating range that ends
  never prints a larger one.)\<close>

definition toString :: "int \<Rightarrow> string" where
  "toString i = (if i < 0 then CHR ''-'' # nat_digits (nat (- i)) else nat_digits (nat i))"

text \<open>\<^verbatim>\<open>xs.join(", ")\<close>\<close>

fun join :: "string list \<Rightarrow> string" where
  "join [] = []"
| "join [x] = x"
| "join (x # y # ys) = x @ '', '' @ join (y # ys)"

definition case_table :: "(char \<times> char) list" where
  "case_table = zip ''abcdefghijklmnopqrstuvwxyz'' ''ABCDEFGHIJKLMNOPQRSTUVWXYZ''"

definition upper_char :: "char \<Rightarrow> char" where
  "upper_char c = (case map_of case_table c of Some u \<Rightarrow> u | None \<Rightarrow> c)"

definition lower_char :: "char \<Rightarrow> char" where
  "lower_char c = (case map_of (map (\<lambda>(l, u). (u, l)) case_table) c of Some l \<Rightarrow> l | None \<Rightarrow> c)"

text \<open>\<^verbatim>\<open>code.toUpperCase()\<close> and \<^verbatim>\<open>.trim()\<close> on ASCII text.\<close>

definition toUpperCase :: "string \<Rightarrow> string" where
  "toUpperCase s = map upper_char s"

definition is_space :: "char \<Rightarrow> bool" where
  "is_space c = (c \<in> set [CHR '' '', CHR 0x09, CHR 0x0A, CHR 0x0B, CHR 0x0C, CHR 0x0D])"

definition trim :: "string \<Rightarrow> string" where
  "trim s = rev (dropWhile is_space (rev (dropWhile is_space s)))"

definition hex_digit :: "char \<Rightarrow> bool" where
  "hex_digit c = (c \<in> set ''0123456789abcdefABCDEF'')"

definition upper_alnum :: "char \<Rightarrow> bool" where
  "upper_alnum c = (c \<in> set ''ABCDEFGHIJKLMNOPQRSTUVWXYZ0123456789'')"

text \<open>
  \<^verbatim>\<open>/^[0-9a-f]{8}-[0-9a-f]{4}-[0-9a-f]{4}-[0-9a-f]{4}-[0-9a-f]{12}$/i.test(id)\<close>:
  36 characters, hyphens at positions 8, 13, 18 and 23, hexadecimal digits of either
  case elsewhere.
\<close>

definition uuidRegex_test :: "string \<Rightarrow> bool" where
  "uuidRegex_test s =
     (length s = 36 \<and>
      list_all hex_digit (take 8 s) \<and> s ! 8 = CHR ''-'' \<and>
      list_all hex_digit (take 4 (drop 9 s)) \<and> s ! 13 = CHR ''-'' \<and>
      list_all hex_digit (take 4 (drop 14 s)) \<and> s ! 18 = CHR ''-'' \<and>
      list_all hex_digit (take 4 (drop 19 s)) \<and> s ! 23 = CHR ''-'' \<and>
      list_all hex_digit (drop 24 s))"

text \<open>The database compares values of type UUID, so the letter case of the text form
  does not matter, and it prints them in lower case.\<close>

definition pg_uuid :: "string \<Rightarrow> string" where
  "pg_uuid s = map lower_char s"

subsection \<open>Percentages: \<^verbatim>\<open>Math.round((count / total) * 100)\<close> in binary64\<close>

text \<open>
  A non-negative finite double is \<open>m * 2^e\<close> with \<open>0 \<le> m \<le> 2^53\<close>. Division and
  multiplication return the double nearest to the exact result, ties to the even
  mantissa. \<open>round53 n d e\<close> is the double nearest to \<open>(n / d) * 2^e\<close>: the fraction is
  scaled until its integer part has 53 bits, then rounded. (Counts and totals are array
  lengths, far inside the range where every integer is a double and no result is
  subnormal.)
\<close>

type_synonym double = "int \<times> int"

function scale_up :: "int \<Rightarrow> int \<Rightarrow> int \<Rightarrow> int \<times> int \<times> int" where
  "scale_up n d e =
     (if 0 < n \<and> n < 2 ^ 52 * d then scale_up (2 * n) d (e - 1) else (n, d, e))"
  by pat_completeness auto
termination
  by (relation "measure (\<lambda>(n, d, e). nat (2 ^ 52 * d - n))") auto

function scale_down :: "int \<Rightarrow> int \<Rightarrow> int \<Rightarrow> int \<times> int \<times> int" where
  "scale_down n d e =
     (if 0 < d \<and> 2 ^ 53 * d \<le> n then scale_down n (2 * d) (e + 1) else (n, d, e))"
  by pat_completeness auto
termination
  by (relation "measure (\<lambda>(n, d, e). nat (n + 1 - 2 ^ 53 * d))") auto

declare scale_up.simps [simp del] scale_down.simps [simp del]

definition half_even :: "int \<Rightarrow> int \<Rightarrow> int" where
  "half_even n d =
     (let q = n div d; r = n mod d
      in if 2 * r < d then q else if d < 2 * r then q + 1
         else if even q then q else q + 1)"

definition round53 :: "int \<Rightarrow> int \<Rightarrow> int \<Rightarrow> double" where
  "round53 n d e =
     (if n \<le> 0 \<or> d \<le> 0 then (0, 0)
      else case scale_up n d e of (n1, d1, e1) \<Rightarrow>
           case scale_down n1 d1 e1 of (n2, d2, e2) \<Rightarrow> (half_even n2 d2, e2))"

text \<open>\<^verbatim>\<open>a / b\<close> on two integers, \<^verbatim>\<open>x * 100\<close>, and \<^verbatim>\<open>Math.round\<close> (nearest integer,
  a tie goes up).\<close>

definition fdiv :: "nat \<Rightarrow> nat \<Rightarrow> double" where
  "fdiv a b = round53 (int a) (int b) 0"

definition fmul100 :: "double \<Rightarrow> double" where
  "fmul100 x = (case x of (m, e) \<Rightarrow> round53 (m * 100) 1 e)"

definition Math_round :: "double \<Rightarrow> nat" where
  "Math_round x =
     (case x of (m, e) \<Rightarrow>
        if 0 \<le> e then nat (m * 2 ^ nat e)
        else nat ((2 * m + 2 ^ nat (- e)) div (2 * 2 ^ nat (- e))))"

definition percentage_of :: "nat \<Rightarrow> nat \<Rightarrow> nat" where
  "percentage_of c t = Math_round (fmul100 (fdiv c t))"

text \<open>The same quotient in exact arithmetic, rounded to the nearest integer with a tie
  going up: what \<open>round(count / total * 100)\<close> denotes on the rationals.\<close>

definition exact_percentage :: "nat \<Rightarrow> nat \<Rightarrow> nat" where
  "exact_percentage c t = (200 * c + t) div (2 * t)"

text \<open>The real number that a double denotes.\<close>

definition val :: "double \<Rightarrow> real" where
  "val x = (case x of (m, e) \<Rightarrow> of_int m * 2 powi e)"

subsection \<open>Integers as doubles, and the loop over a rating range\<close>

text \<open>
  The double nearest to an integer, ties to the even mantissa: the integer itself up
  to a magnitude of \<open>2^53\<close>, and a multiple of a power of two beyond. From
  \<open>2^1024 - 2^970\<close> on the result is \<^verbatim>\<open>Infinity\<close>, for which \<open>2^1024\<close> stands here (it
  is larger than every finite double, and adding 1 leaves it unchanged).
\<close>

definition nearest_double :: "int \<Rightarrow> int" where
  "nearest_double n =
     (case scale_down \<bar>n\<bar> 1 0 of (a, d, e) \<Rightarrow>
        if 2 ^ 1024 \<le> half_even a d * d then sgn n * 2 ^ 1024
        else sgn n * (half_even a d * d))"

text \<open>
  \<^verbatim>\<open>for (let i = min; i <= max; i++) { body }\<close> on a state \<open>s\<close>. The counter is a
  double, so \<^verbatim>\<open>i++\<close> is the double nearest to \<open>i + 1\<close>: from \<open>2^53\<close> on that can be \<open>i\<close>
  itself, and then the loop never ends, which is the result \<open>None\<close>.
\<close>

partial_function (option) for_loop ::
  "(int \<Rightarrow> 's \<Rightarrow> 's) \<Rightarrow> int \<Rightarrow> int \<Rightarrow> 's \<Rightarrow> 's option" where
  "for_loop body i hi s =
     (if i \<le> hi then for_loop body (nearest_double (i + 1)) hi (body i s) else Some s)"

declare for_loop.simps [code]

subsection \<open>Option descriptors and plain objects\<close>

text \<open>
  A poll's \<^verbatim>\<open>options\<close> column is a JSON object, typed
  \<^verbatim>\<open>Record<string, string | number>\<close> by the handlers. It is modelled by its own
  properties, listed in the order of \<^verbatim>\<open>Object.keys\<close>; a JSON array, as in the
  seed data, is the object of its indices. (The JSON value \<^verbatim>\<open>null\<close>, which neither
  poll creation nor the seed data stores, is not modelled.)
\<close>

datatype jsval = Num int | Str string

type_synonym 'v jsobj = "(string \<times> 'v) list"

definition Object_keys :: "'v jsobj \<Rightarrow> string list" where
  "Object_keys obj = map fst obj"

definition digit_val :: "char \<Rightarrow> int option" where
  "digit_val c = map_of (zip ''0123456789'' [0, 1, 2, 3, 4, 5, 6, 7, 8, 9]) c"

fun digits_val :: "int \<Rightarrow> string \<Rightarrow> int option" where
  "digits_val acc [] = Some acc"
| "digits_val acc (c # cs) =
     (case digit_val c of None \<Rightarrow> None | Some d \<Rightarrow> digits_val (10 * acc + d) cs)"

text \<open>
  \<^verbatim>\<open>Number(x)\<close>, with \<open>None\<close> for \<^verbatim>\<open>NaN\<close>. A missing property is
  \<^verbatim>\<open>undefined\<close> and converts to \<^verbatim>\<open>NaN\<close>; a stored number has been read as the
  nearest double; the empty string converts to 0 and a string of decimal digits, with
  an optional sign, to the double nearest to its value. (JavaScript also reads
  fractions, exponents, radix prefixes and \<^verbatim>\<open>Infinity\<close> in a string. Their values lie
  outside this integer model, where such a string reads as \<^verbatim>\<open>NaN\<close>; every statement
  below that depends on the value of a rating bound is made for bounds stored as
  numbers.)
\<close>

definition Number :: "jsval option \<Rightarrow> int option" where
  "Number x =
     (case x of
        None \<Rightarrow> None
      | Some (Num n) \<Rightarrow> Some (nearest_double n)
      | Some (Str s) \<Rightarrow>
          map_option nearest_double
            (case trim s of
               [] \<Rightarrow> Some 0
             | c # cs \<Rightarrow>
                 if c = CHR ''-'' \<and> cs \<noteq> [] then map_option uminus (digits_val 0 cs)
                 else if c = CHR ''+'' \<and> cs \<noteq> [] then digits_val 0 cs
                 else digits_val 0 (c # cs)))"

text \<open>\<^verbatim>\<open>Number(x) || d\<close>: \<^verbatim>\<open>NaN\<close> and 0 are falsy.\<close>

definition or_number :: "int option \<Rightarrow> int \<Rightarrow> int" where
  "or_number x d = (case x of None \<Rightarrow> d | Some n \<Rightarrow> if n = 0 then d else n)"

text \<open>\<^verbatim>\<open>String(x || d)\<close> and \<^verbatim>\<open>String(x)\<close> on an option value, which give the label
  of a result entry. (A label stored as a number is printed by \<open>toString\<close>; from a
  magnitude of \<open>2^54\<close> on JavaScript can print fewer digits, or an exponent. No claim
  below depends on the text of a label.)\<close>

definition String_of :: "jsval option \<Rightarrow> string" where
  "String_of x =
     (case x of
        None \<Rightarrow> ''undefined''
      | Some (Num n) \<Rightarrow> toString (nearest_double n)
      | Some (Str s) \<Rightarrow> s)"

definition or_label :: "jsval option \<Rightarrow> string \<Rightarrow> string" where
  "or_label x d =
     (case x of
        None \<Rightarrow> d
      | Some (Num n) \<Rightarrow> if n = 0 then d else toString (nearest_double n)
      | Some (Str s) \<Rightarrow> if s = [] then d else s)"

text \<open>
  The aggregator keeps its tallies in plain objects created by \<^verbatim>\<open>{}\<close>.
  \<^verbatim>\<open>obj[k] = v\<close> creates or overwrites the own property \<open>k\<close>, except for the key
  \<^verbatim>\<open>__proto__\<close>: that assignment reaches the prototype accessor that every plain
  object inherits, and no own property is created.
  \<^verbatim>\<open>obj.hasOwnProperty(k)\<close> is true of own properties only.
\<close>

definition obj_set :: "string \<Rightarrow> 'v \<Rightarrow> 'v jsobj \<Rightarrow> 'v jsobj" where
  "obj_set k v obj = (if k = ''__proto__'' then obj else AList.update k v obj)"

definition hasOwnProperty :: "'v jsobj \<Rightarrow> string \<Rightarrow> bool" where
  "hasOwnProperty obj k = (map_of obj k \<noteq> None)"

text \<open>\<^verbatim>\<open>obj[k] || 0\<close> on a tally.\<close>

definition or_zero :: "nat option \<Rightarrow> nat" where
  "or_zero x = (case x of None \<Rightarrow> 0 | Some n \<Rightarrow> n)"

subsection \<open>Tables, the session store and the environment of a request\<close>

text \<open>
  The rows of \<^verbatim>\<open>rooms\<close>, \<^verbatim>\<open>polls\<close> and \<^verbatim>\<open>votes\<close> as the schema declares them.
  Timestamps are milliseconds since the epoch, the values that the handlers compare;
  \<^verbatim>\<open>expires_at\<close> may be null. A null \<^verbatim>\<open>is_active\<close> is falsy to the handler and is
  the flag \<open>False\<close> here.
\<close>

record room_row =
  r_id :: string
  r_code :: string
  r_name :: "string option"
  r_created_at :: int
  r_expires_at :: "int option"

record poll_row =
  p_id :: string
  p_room_id :: string
  p_question :: string
  p_options :: "jsval jsobj"
  p_poll_type :: string
  p_created_at :: int
  p_is_active :: bool

record vote_row =
  v_id :: string
  v_poll_id :: string
  v_choice :: string
  v_session_id :: string
  v_created_at :: int

datatype role = creator | participant

record SessionData =
  sd_id :: string
  sd_createdAt :: int
  sd_lastActivity :: int
  sd_roomCode :: "string option"
  sd_role :: "role option"

text \<open>A request sent to the storage layer; the log of them is part of the state, so
  that a handler that returns before any lookup leaves the log as it was.\<close>

datatype db_call =
  SelectPoll string
| SelectVote string string
| InsertVote string string string
| SelectVotes string
| SelectRoom string

record world =
  rooms :: "room_row list"
  polls :: "poll_row list"
  votes :: "vote_row list"
  kv :: "SessionData jsobj"
  db_calls :: "db_call list"

text \<open>
  What a request meets outside the tables: the clock (one reading per request), the
  identifiers that \<^verbatim>\<open>crypto.randomUUID()\<close> and the database's
  \<^verbatim>\<open>uuid_generate_v4()\<close> would produce, whether the key-value client is configured,
  and which calls to an external service fail.
\<close>

record env =
  now :: int
  randomUUID :: string
  new_vote_id :: string
  poll_lookup_fails :: bool
  vote_check_fails :: bool
  vote_insert_fails :: bool
  votes_fetch_fails :: bool
  room_lookup_fails :: bool
  kv_configured :: bool
  kv_setex_fails :: bool

text \<open>The outcome of a query: the row, the error code \<^verbatim>\<open>PGRST116\<close> that
  \<^verbatim>\<open>.single()\<close> reports when the result is not exactly one row, or another error.\<close>

datatype 'a pg_result = Data 'a | PGRST116 | OtherError

definition single :: "'a list \<Rightarrow> 'a pg_result" where
  "single rs = (case rs of [r] \<Rightarrow> Data r | _ \<Rightarrow> PGRST116)"

text \<open>\<^verbatim>\<open>from("polls").select("*, rooms!inner(...)").eq("id", id).single()\<close>\<close>

definition select_poll :: "env \<Rightarrow> world \<Rightarrow> string \<Rightarrow> (poll_row \<times> room_row) pg_result" where
  "select_poll e w pid =
     (if poll_lookup_fails e then OtherError
      else single (concat (map (\<lambda>p. map (\<lambda>r. (p, r))
                     (filter (\<lambda>r. pg_uuid (r_id r) = pg_uuid (p_room_id p)) (rooms w)))
                     (filter (\<lambda>p. pg_uuid (p_id p) = pg_uuid pid) (polls w)))))"

text \<open>\<^verbatim>\<open>from("votes").select("id").eq("poll_id", id).eq("session_id", sessionId).single()\<close>\<close>

definition same_ballot :: "string \<Rightarrow> string \<Rightarrow> vote_row \<Rightarrow> bool" where
  "same_ballot pid sid v = (pg_uuid (v_poll_id v) = pg_uuid pid \<and> v_session_id v = sid)"

definition select_vote :: "env \<Rightarrow> world \<Rightarrow> string \<Rightarrow> string \<Rightarrow> string pg_result" where
  "select_vote e w pid sid =
     (if vote_check_fails e then OtherError
      else single (map v_id (filter (same_ballot pid sid) (votes w))))"

text \<open>
  \<^verbatim>\<open>from("votes").insert({poll_id, session_id, choice}).select().single()\<close>.
  The table declares \<^verbatim>\<open>UNIQUE(poll_id, session_id)\<close>, a primary key on \<^verbatim>\<open>id\<close> and
  a foreign key to \<^verbatim>\<open>polls\<close>; an insert that breaks one of them is an error and
  leaves the table as it was.
\<close>

definition insert_vote ::
  "env \<Rightarrow> world \<Rightarrow> string \<Rightarrow> string \<Rightarrow> string \<Rightarrow> vote_row option \<times> world" where
  "insert_vote e w pid sid choice =
     (let row = \<lparr>v_id = new_vote_id e, v_poll_id = pg_uuid pid, v_choice = choice,
                 v_session_id = sid, v_created_at = now e\<rparr>
      in if vote_insert_fails e
            \<or> list_ex (same_ballot pid sid) (votes w)
            \<or> list_ex (\<lambda>v. pg_uuid (v_id v) = pg_uuid (new_vote_id e)) (votes w)
            \<or> \<not> list_ex (\<lambda>p. pg_uuid (p_id p) = pg_uuid pid) (polls w)
         then (None, w)
         else (Some row, w\<lparr>votes := votes w @ [row]\<rparr>))"

text \<open>\<^verbatim>\<open>from("votes").select("choice, created_at").eq("poll_id", id)\<close>\<close>

definition select_votes :: "env \<Rightarrow> world \<Rightarrow> string \<Rightarrow> (string \<times> int) list option" where
  "select_votes e w pid =
     (if votes_fetch_fails e then None
      else Some (map (\<lambda>v. (v_choice v, v_created_at v))
                  (filter (\<lambda>v. pg_uuid (v_poll_id v) = pg_uuid pid) (votes w))))"

definition logged :: "db_call \<Rightarrow> world \<Rightarrow> world" where
  "logged c w = w\<lparr>db_calls := db_calls w @ [c]\<rparr>"

text \<open>
  \<^verbatim>\<open>SessionManager.createSession\<close> (\<^verbatim>\<open>src/lib/kv.ts\<close>). Without a configured
  client it warns and returns. Otherwise it awaits \<^verbatim>\<open>client.setex\<close> with no handler
  around it: when the write is rejected so is \<^verbatim>\<open>createSession\<close>, which is the
  result \<open>None\<close>.
\<close>

definition createSession ::
  "env \<Rightarrow> string \<Rightarrow> string option \<Rightarrow> role option \<Rightarrow> world \<Rightarrow> world option" where
  "createSession e sessionId roomCode rl w =
     (if \<not> kv_configured e then Some w
      else if kv_setex_fails e then None
      else Some (w\<lparr>kv := AList.update (''session:'' @ sessionId)
                     \<lparr>sd_id = sessionId, sd_createdAt = now e, sd_lastActivity = now e,
                      sd_roomCode = roomCode, sd_role = rl\<rparr> (kv w)\<rparr>))"

text \<open>The outcome of a request: \<^verbatim>\<open>NextResponse.json({success: false, error, details},
  {status})\<close>, \<^verbatim>\<open>NextResponse.json({success: true, data}, {status})\<close>, or no response at
  all, when the handler never returns.\<close>

datatype 'a response = Failure nat string string | Success nat 'a | Unanswered

text \<open>\<^verbatim>\<open>request.headers.get("x-session-id") || crypto.randomUUID()\<close>\<close>

definition session_of :: "env \<Rightarrow> string option \<Rightarrow> string" where
  "session_of e header =
     (case header of None \<Rightarrow> randomUUID e | Some h \<Rightarrow> if h = [] then randomUUID e else h)"


subsection \<open>The vote handler: \<^verbatim>\<open>POST /api/polls/[id]/vote\<close>\<close>

text \<open>The \<^verbatim>\<open>switch (poll.poll_type)\<close> of the vote handler that fills
  \<^verbatim>\<open>validChoices\<close>; \<open>None\<close> when the loop of the \<^verbatim>\<open>rating\<close> case never ends.
  (The engine's limits on memory and on the length of an array are not modelled.)\<close>

definition validChoices :: "poll_row \<Rightarrow> string list option" where
  "validChoices poll =
     (let options = p_options poll
      in if p_poll_type poll = ''yes_no'' then Some [''yes'', ''no'']
         else if p_poll_type poll = ''rating'' then
           (let lo = or_number (Number (map_of options ''min'')) 1;
                hi = or_number (Number (map_of options ''max'')) 5
            in for_loop (\<lambda>i vc. vc @ [toString i]) lo hi [])
         else Some (Object_keys options))"

text \<open>The \<^verbatim>\<open>choice\<close> property of the parsed request body.\<close>

datatype jsdyn = JString string | JNotString

record vote_view =
  vote_id :: string
  vote_poll_id :: string
  vote_choice :: string
  vote_created_at :: int

text \<open>
  The handler, in the order of the source. \<open>body = None\<close> stands for a body that
  \<^verbatim>\<open>request.json()\<close> cannot parse (or that is \<^verbatim>\<open>null\<close>): the exception is caught
  by the handler's \<^verbatim>\<open>catch\<close>, like every other one. When the loop that fills
  \<^verbatim>\<open>validChoices\<close> never ends, the request stays unanswered after the poll lookup.
\<close>

definition POST_vote ::
  "env \<Rightarrow> string \<Rightarrow> jsdyn option \<Rightarrow> string option \<Rightarrow> world \<Rightarrow> vote_view response \<times> world" where
  "POST_vote e pid body header w =
     (case body of
        None \<Rightarrow>
          (Failure 500 ''Internal server error''
             ''An unexpected error occurred while processing the vote'', w)
      | Some choice_field \<Rightarrow>
          if \<not> uuidRegex_test pid then
            (Failure 400 ''Invalid poll ID'' ''Poll ID must be a valid UUID'', w)
          else
            (case choice_field of
               JNotString \<Rightarrow>
                 (Failure 400 ''Invalid choice'' ''Choice is required and must be a string'', w)
             | JString choice \<Rightarrow>
                 if choice = [] then
                   (Failure 400 ''Invalid choice'' ''Choice is required and must be a string'', w)
                 else
                   (let sessionId = session_of e header;
                        w1 = logged (SelectPoll pid) w
                    in case select_poll e w1 pid of
                         OtherError \<Rightarrow>
                           (Failure 500 ''Database error'' ''Failed to look up poll in database'', w1)
                       | PGRST116 \<Rightarrow>
                           (Failure 404 ''Poll not found'' ''No poll exists with this ID'', w1)
                       | Data (poll, room) \<Rightarrow>
                           if \<not> p_is_active poll then
                             (Failure 410 ''Poll inactive''
                                ''This poll is no longer accepting votes'', w1)
                           else
                             (case r_expires_at room of
                                None \<Rightarrow>
                                  (Failure 410 ''Room expired''
                                     ''The room containing this poll has expired'', w1)
                              | Some roomExpiresAt \<Rightarrow>
                                  if now e > roomExpiresAt then
                                    (Failure 410 ''Room expired''
                                       ''The room containing this poll has expired'', w1)
                                  else
                                    (case validChoices poll of
                                       None \<Rightarrow> (Unanswered, w1)
                                     | Some vc \<Rightarrow>
                                         if choice \<notin> set vc then
                                           (Failure 400 ''Invalid choice''
                                              (''Choice must be one of: '' @ join vc), w1)
                                         else
                                           (let w2 = logged (SelectVote pid sessionId) w1
                                            in case select_vote e w2 pid sessionId of
                                                 OtherError \<Rightarrow>
                                                   (Failure 500 ''Database error''
                                                      ''Failed to check existing vote'', w2)
                                               | Data existingVote \<Rightarrow>
                                                   (Failure 409 ''Already voted''
                                                      ''You have already voted on this poll'', w2)
                                               | PGRST116 \<Rightarrow>
                                                   (case insert_vote e
                                                           (logged (InsertVote pid sessionId choice) w2)
                                                           pid sessionId choice of
                                                      (None, w3) \<Rightarrow>
                                                        (Failure 500 ''Database error''
                                                           ''Failed to create vote in database'', w3)
                                                    | (Some vote, w3) \<Rightarrow>
                                                        (case createSession e sessionId
                                                                (Some (r_code room))
                                                                (Some participant) w3 of
                                                           None \<Rightarrow>
                                                             (Failure 500 ''Internal server error''
                                                                ''An unexpected error occurred while processing the vote'',
                                                              w3)
                                                         | Some w4 \<Rightarrow>
                                                             (Success 201
                                                                \<lparr>vote_id = v_id vote,
                                                                 vote_poll_id = v_poll_id vote,
                                                                 vote_choice = v_choice vote,
                                                                 vote_created_at = v_created_at vote\<rparr>,
                                                              w4)))))))))"

text \<open>The contract of the spec, \<open>submitVote(pollId, sessionId, rawChoice)\<close>: a request
  whose body carries the choice as a string and whose header carries the session.\<close>

definition submitVote ::
  "env \<Rightarrow> world \<Rightarrow> string \<Rightarrow> string \<Rightarrow> string \<Rightarrow> vote_view response \<times> world" where
  "submitVote e w pollId sessionId rawChoice =
     POST_vote e pollId (Some (JString rawChoice)) (Some sessionId) w"

subsection \<open>The results handler: \<^verbatim>\<open>GET /api/polls/[id]/results\<close>\<close>

text \<open>The keys that the first \<^verbatim>\<open>switch\<close> of the results handler assigns 0 to, in
  \<^verbatim>\<open>voteCounts\<close> and in \<^verbatim>\<open>votePercentages\<close>, in the order of the assignments;
  \<open>None\<close> when the loop of the \<^verbatim>\<open>rating\<close> case never ends.\<close>

definition bucket_keys :: "poll_row \<Rightarrow> string list option" where
  "bucket_keys poll =
     (let options = p_options poll
      in if p_poll_type poll = ''yes_no'' then Some [''yes'', ''no'']
         else if p_poll_type poll = ''rating'' then
           (let lo = or_number (Number (map_of options ''min'')) 1;
                hi = or_number (Number (map_of options ''max'')) 5
            in for_loop (\<lambda>i keys. keys @ [toString i]) lo hi [])
         else Some (Object_keys options))"

definition init_zero :: "string list \<Rightarrow> nat jsobj" where
  "init_zero ks = fold (\<lambda>k obj. obj_set k 0 obj) ks []"

text \<open>
  \<^verbatim>\<open>votes.forEach(vote => { if (voteCounts.hasOwnProperty(vote.choice))
  voteCounts[vote.choice]++; })\<close>.
  The method is looked up on \<^verbatim>\<open>voteCounts\<close> itself: when one of its own keys is
  \<^verbatim>\<open>hasOwnProperty\<close>, the lookup finds the number stored there, and the call throws a
  \<^verbatim>\<open>TypeError\<close> (the result \<open>None\<close>).
\<close>

fun count_votes :: "nat jsobj \<Rightarrow> (string \<times> int) list \<Rightarrow> nat jsobj option" where
  "count_votes voteCounts [] = Some voteCounts"
| "count_votes voteCounts (vote # rest) =
     (if hasOwnProperty voteCounts ''hasOwnProperty'' then None
      else if hasOwnProperty voteCounts (fst vote) then
        count_votes
          (AList.update (fst vote) (or_zero (map_of voteCounts (fst vote)) + 1) voteCounts) rest
      else count_votes voteCounts rest)"

text \<open>\<^verbatim>\<open>if (totalVotes > 0) Object.keys(voteCounts).forEach(option =>
  votePercentages[option] = Math.round((voteCounts[option] / totalVotes) * 100))\<close>\<close>

definition calc_percentages :: "nat jsobj \<Rightarrow> nat jsobj \<Rightarrow> nat \<Rightarrow> nat jsobj" where
  "calc_percentages voteCounts votePercentages totalVotes =
     (if totalVotes > 0 then
        fold (\<lambda>option vp.
                obj_set option (percentage_of (or_zero (map_of voteCounts option)) totalVotes) vp)
             (Object_keys voteCounts) votePercentages
      else votePercentages)"

record result_entry =
  label :: string
  count :: nat
  percentage :: nat

text \<open>The second \<^verbatim>\<open>switch\<close>, which builds \<^verbatim>\<open>formattedResults\<close>, with a loop of its
  own in the \<^verbatim>\<open>rating\<close> case.\<close>

definition format_results ::
  "poll_row \<Rightarrow> nat jsobj \<Rightarrow> nat jsobj \<Rightarrow> result_entry jsobj option" where
  "format_results poll voteCounts votePercentages =
     (let options = p_options poll
      in if p_poll_type poll = ''yes_no'' then
           Some [(''yes'', \<lparr>label = or_label (map_of options ''yes'') ''Yes'',
                            count = or_zero (map_of voteCounts ''yes''),
                            percentage = or_zero (map_of votePercentages ''yes'')\<rparr>),
                 (''no'', \<lparr>label = or_label (map_of options ''no'') ''No'',
                           count = or_zero (map_of voteCounts ''no''),
                           percentage = or_zero (map_of votePercentages ''no'')\<rparr>)]
         else if p_poll_type poll = ''rating'' then
           (let lo = or_number (Number (map_of options ''min'')) 1;
                hi = or_number (Number (map_of options ''max'')) 5
            in for_loop
                 (\<lambda>i obj.
                    obj_set (toString i)
                      \<lparr>label = toString i,
                       count = or_zero (map_of voteCounts (toString i)),
                       percentage = or_zero (map_of votePercentages (toString i))\<rparr> obj)
                 lo hi [])
         else
           Some (fold (\<lambda>option obj.
                         obj_set option
                           \<lparr>label = String_of (map_of options option),
                            count = or_zero (map_of voteCounts option),
                            percentage = or_zero (map_of votePercentages option)\<rparr> obj)
                      (Object_keys options) []))"

record results_data =
  res_poll_id :: string
  res_question :: string
  res_poll_type :: string
  total_votes :: nat
  results :: "result_entry jsobj"
  last_updated :: int
  res_room :: "string \<times> string \<times> string option"

text \<open>
  The handler, in the order of the source. When one of its loops over a rating range
  never ends, the request stays unanswered after the votes have been fetched.
\<close>

definition GET_results :: "env \<Rightarrow> string \<Rightarrow> world \<Rightarrow> results_data response \<times> world" where
  "GET_results e pid w =
     (if \<not> uuidRegex_test pid then
        (Failure 400 ''Invalid poll ID'' ''Poll ID must be a valid UUID'', w)
      else
        (let w1 = logged (SelectPoll pid) w
         in case select_poll e w1 pid of
              OtherError \<Rightarrow>
                (Failure 500 ''Database error'' ''Failed to look up poll in database'', w1)
            | PGRST116 \<Rightarrow>
                (Failure 404 ''Poll not found'' ''No poll exists with this ID'', w1)
            | Data (poll, room) \<Rightarrow>
                (case r_expires_at room of
                   None \<Rightarrow>
                     (Failure 410 ''Room expired''
                        ''The room containing this poll has expired'', w1)
                 | Some roomExpiresAt \<Rightarrow>
                     if now e > roomExpiresAt then
                       (Failure 410 ''Room expired''
                          ''The room containing this poll has expired'', w1)
                     else
                       (let w2 = logged (SelectVotes pid) w1
                        in case select_votes e w2 pid of
                             None \<Rightarrow>
                               (Failure 500 ''Database error''
                                  ''Failed to get poll results from database'', w2)
                           | Some fetched \<Rightarrow>
                               (let totalVotes = length fetched
                                in case bucket_keys poll of
                                     None \<Rightarrow> (Unanswered, w2)
                                   | Some keys \<Rightarrow>
                                       (case count_votes (init_zero keys) fetched of
                                          None \<Rightarrow>
                                            (Failure 500 ''Internal server error''
                                               ''An unexpected error occurred while getting poll results'',
                                             w2)
                                        | Some voteCounts \<Rightarrow>
                                            (let votePercentages =
                                                   calc_percentages voteCounts (init_zero keys)
                                                     totalVotes
                                             in case format_results poll voteCounts
                                                       votePercentages of
                                                  None \<Rightarrow> (Unanswered, w2)
                                                | Some formattedResults \<Rightarrow>
                                                    (Success 200
                                                       \<lparr>res_poll_id = pid,
                                                        res_question = p_question poll,
                                                        res_poll_type = p_poll_type poll,
                                                        total_votes = totalVotes,
                                                        results = formattedResults,
                                                        last_updated = now e,
                                                        res_room =
                                                          (r_id room, r_code room, r_name room)\<rparr>,
                                                     w2))))))))"

text \<open>The contract of the spec, \<open>getResults(pollId)\<close>.\<close>

definition getResults :: "env \<Rightarrow> world \<Rightarrow> string \<Rightarrow> results_data response \<times> world" where
  "getResults e w pollId = GET_results e pollId w"

subsection \<open>Room lookup: \<^verbatim>\<open>GET /api/rooms/[code]\<close>\<close>

text \<open>\<^verbatim>\<open>typeof code === 'string' && code.length === 6 && /^[A-Z0-9]+$/.test(code)\<close>\<close>

definition validateRoomCode :: "string \<Rightarrow> bool" where
  "validateRoomCode code = (length code = 6 \<and> code \<noteq> [] \<and> list_all upper_alnum code)"

definition normalizeRoomCode :: "string \<Rightarrow> string" where
  "normalizeRoomCode code = trim (toUpperCase code)"

definition isRoomExpired :: "int \<Rightarrow> int option \<Rightarrow> bool" where
  "isRoomExpired nw expiresAt = (case expiresAt of None \<Rightarrow> True | Some expiration \<Rightarrow> nw > expiration)"

text \<open>\<^verbatim>\<open>from("rooms").select("*").eq("code", normalizedCode).single()\<close>\<close>

definition select_room :: "env \<Rightarrow> world \<Rightarrow> string \<Rightarrow> room_row pg_result" where
  "select_room e w code =
     (if room_lookup_fails e then OtherError
      else single (filter (\<lambda>r. r_code r = code) (rooms w)))"

definition GET_room ::
  "env \<Rightarrow> string \<Rightarrow> string option \<Rightarrow> world \<Rightarrow> room_row response \<times> world" where
  "GET_room e code header w =
     (if \<not> validateRoomCode code then
        (Failure 400 ''Invalid room code''
           ''Room code must be exactly 6 alphanumeric characters'', w)
      else
        (let normalizedCode = normalizeRoomCode code;
             w1 = logged (SelectRoom normalizedCode) w
         in case select_room e w1 normalizedCode of
              PGRST116 \<Rightarrow>
                (Failure 404 ''Room not found'' ''No room exists with this code'', w1)
            | OtherError \<Rightarrow>
                (Failure 500 ''Database error'' ''Failed to look up room in database'', w1)
            | Data room \<Rightarrow>
                if isRoomExpired (now e) (r_expires_at room) then
                  (Failure 410 ''Room expired''
                     ''This room has expired and is no longer accessible'', w1)
                else
                  (case createSession e (session_of e header) (Some normalizedCode)
                          (Some participant) w1 of
                     None \<Rightarrow>
                       (Failure 500 ''Internal server error''
                          ''An unexpected error occurred while looking up the room'', w1)
                   | Some w2 \<Rightarrow> (Success 200 room, w2))))"


subsection \<open>The legal choice set in the words of the spec\<close>

text \<open>
  The data model and the choice-set derivation as the spec words them, to be compared
  with what the handlers compute. A poll is binary, numeric-range with integer bounds
  \<open>min < max\<close>, or enumerated-choice with a mapping from short keys to labels; its legal
  choices are \<open>yes\<close> and \<open>no\<close>, the stringified integers of \<open>[min, max]\<close>, or the keys
  of the mapping, in insertion order.
\<close>

datatype poll_descriptor =
  Binary
| NumericRange int int
| EnumeratedChoice "(string \<times> string) list"

definition legal_choices :: "poll_descriptor \<Rightarrow> string list" where
  "legal_choices d =
     (case d of
        Binary \<Rightarrow> [''yes'', ''no'']
      | NumericRange lo hi \<Rightarrow> map toString [lo..hi]
      | EnumeratedChoice m \<Rightarrow> map fst m)"

text \<open>How a stored poll row carries a descriptor: the type tags and option shapes that
  \<^verbatim>\<open>src/app/api/polls/create/route.ts\<close> writes.\<close>

definition describes :: "poll_descriptor \<Rightarrow> poll_row \<Rightarrow> bool" where
  "describes d poll =
     (case d of
        Binary \<Rightarrow> p_poll_type poll = ''yes_no''
      | NumericRange lo hi \<Rightarrow>
          p_poll_type poll = ''rating'' \<and> map_of (p_options poll) ''min'' = Some (Num lo)
          \<and> map_of (p_options poll) ''max'' = Some (Num hi)
      | EnumeratedChoice m \<Rightarrow>
          p_poll_type poll = ''multiple_choice''
          \<and> p_options poll = map (\<lambda>kl. (fst kl, Str (snd kl))) m)"

text \<open>
  The rating bounds that both handlers read as they are stored and loop over to the
  end: different from 0 (a bound of 0 is taken for a missing one) and below \<open>2^53\<close> in
  magnitude (where every integer is a double and \<^verbatim>\<open>i++\<close> adds 1).
\<close>

definition readable :: "poll_descriptor \<Rightarrow> bool" where
  "readable d =
     (case d of
        NumericRange lo hi \<Rightarrow> lo \<noteq> 0 \<and> hi \<noteq> 0 \<and> \<bar>lo\<bar> < 2 ^ 53 \<and> \<bar>hi\<bar> < 2 ^ 53
      | _ \<Rightarrow> True)"

text \<open>
  The vote handler collects the keys of a rating range in an array, and a JavaScript
  array holds at most \<open>2^32 - 1\<close> elements. What the handler does with a longer range is
  not modelled; the statements about its answer are made for ranges that fit.
\<close>

definition fits_array :: "poll_descriptor \<Rightarrow> bool" where
  "fits_array d = (case d of NumericRange lo hi \<Rightarrow> hi - lo < 2 ^ 32 - 1 | _ \<Rightarrow> True)"

text \<open>The table constraint \<^verbatim>\<open>UNIQUE(poll_id, session_id)\<close> as a property of the
  ledger.\<close>

definition ledger_unique :: "vote_row list \<Rightarrow> bool" where
  "ledger_unique vs = distinct (map (\<lambda>v. (pg_uuid (v_poll_id v), v_session_id v)) vs)"

text \<open>The number of fetched rows that chose \<open>k\<close>.\<close>

definition votes_for :: "string \<Rightarrow> (string \<times> int) list \<Rightarrow> nat" where
  "votes_for k fetched = length (filter (\<lambda>vote. fst vote = k) fetched)"

subsection \<open>Sample data\<close>

text \<open>A room that is open at the time of the sample requests, polls in it, and
  ballots cast by distinct sessions.\<close>

definition poll_uuid :: string where
  "poll_uuid = ''123e4567-e89b-12d3-a456-426614174000''"

definition room_uuid :: string where
  "room_uuid = ''9f8b7c6d-5e4f-4a3b-8c2d-1e0f9a8b7c6d''"

definition sample_room :: room_row where
  "sample_room =
     \<lparr>r_id = room_uuid, r_code = ''ABC123'', r_name = Some ''Sample Training Room'',
      r_created_at = 0, r_expires_at = Some 86400000\<rparr>"

definition sample_env :: env where
  "sample_env =
     \<lparr>now = 3600000,
      randomUUID = ''0b5e0f0a-7c1d-4e2f-9a3b-5c6d7e8f9a0b'',
      new_vote_id = ''4d3c2b1a-0f9e-4d8c-b7a6-5f4e3d2c1b0a'',
      poll_lookup_fails = False, vote_check_fails = False, vote_insert_fails = False,
      votes_fetch_fails = False, room_lookup_fails = False,
      kv_configured = True, kv_setex_fails = False\<rparr>"

definition sample_poll :: "string \<Rightarrow> jsval jsobj \<Rightarrow> poll_row" where
  "sample_poll ty opts =
     \<lparr>p_id = poll_uuid, p_room_id = room_uuid, p_question = ''Ready?'',
      p_options = opts, p_poll_type = ty, p_created_at = 0, p_is_active = True\<rparr>"

definition binary_poll :: poll_row where
  "binary_poll = sample_poll ''yes_no'' [(''yes'', Str ''Yes''), (''no'', Str ''No'')]"

definition ballot :: "nat \<Rightarrow> string \<Rightarrow> vote_row" where
  "ballot i c =
     \<lparr>v_id = ''00000000-0000-4000-8000-'' @ replicate (12 - length (nat_digits i)) CHR ''0''
               @ nat_digits i,
      v_poll_id = poll_uuid, v_choice = c,
      v_session_id = ''sess_'' @ nat_digits i, v_created_at = int i\<rparr>"

definition sample_world :: "poll_row \<Rightarrow> vote_row list \<Rightarrow> world" where
  "sample_world poll vs =
     \<lparr>rooms = [sample_room], polls = [poll], votes = vs, kv = [], db_calls = []\<rparr>"


definition closed_poll :: poll_row where
  "closed_poll = binary_poll\<lparr>p_is_active := False\<rparr>"

definition late_env :: env where
  "late_env = sample_env\<lparr>now := 90000000\<rparr>"

definition kv_failing_env :: env where
  "kv_failing_env = sample_env\<lparr>kv_setex_fails := True\<rparr>"

definition rating_poll :: "int \<Rightarrow> int \<Rightarrow> poll_row" where
  "rating_poll lo hi = sample_poll ''rating'' [(''min'', Num lo), (''max'', Num hi)]"

text \<open>A rating poll whose upper bound is \<open>2^53\<close>, the first integer at which \<^verbatim>\<open>i++\<close>
  stops advancing.\<close>

definition endless_poll :: poll_row where
  "endless_poll = rating_poll (2 ^ 53 - 2) (2 ^ 53)"

definition keyed_poll :: "jsval jsobj \<Rightarrow> poll_row" where
  "keyed_poll opts = sample_poll ''multiple_choice'' opts"

text \<open>Forty ballots on the binary poll, 23 for \<open>yes\<close> and 17 for \<open>no\<close>; and 256 ballots,
  255 for \<open>yes\<close> and one with a choice that the poll does not have.\<close>

definition forty_ballots :: "vote_row list" where
  "forty_ballots = map (\<lambda>i. ballot i ''yes'') [0..<23] @ map (\<lambda>i. ballot i ''no'') [23..<40]"

definition landslide_ballots :: "vote_row list" where
  "landslide_ballots = map (\<lambda>i. ballot i ''yes'') [0..<255] @ [ballot 255 ''maybe'']"

text \<open>Observations of a response: a property of the data of a success, the entry of
  a key in a successful result set, and the sums of the per-choice counts and
  percentages.\<close>

definition on_success :: "('a \<Rightarrow> 'b) \<Rightarrow> 'a response \<Rightarrow> 'b option" where
  "on_success f resp = (case resp of Success st r \<Rightarrow> Some (f r) | _ \<Rightarrow> None)"

definition entry_of :: "results_data response \<Rightarrow> string \<Rightarrow> result_entry option" where
  "entry_of resp k = (case resp of Success st r \<Rightarrow> map_of (results r) k | _ \<Rightarrow> None)"

definition sum_counts :: "result_entry jsobj \<Rightarrow> nat" where
  "sum_counts res = sum_list (map (\<lambda>ke. count (snd ke)) res)"

definition sum_percentages :: "result_entry jsobj \<Rightarrow> nat" where
  "sum_percentages res = sum_list (map (\<lambda>ke. percentage (snd ke)) res)"


definition proto_key_poll :: poll_row where
  "proto_key_poll = keyed_poll [(''__proto__'', Str ''First''), (''a'', Str ''Second'')]"

definition shadowing_poll :: poll_row where
  "shadowing_poll = keyed_poll [(''hasOwnProperty'', Str ''First''), (''b'', Str ''Second'')]"

section \<open>Properties\<close>

subsection \<open>Auxiliary facts about the storage operations\<close>

lemma select_poll_logged [simp]: "select_poll e (logged c w) pid = select_poll e w pid"
  by (simp add: select_poll_def logged_def)

lemma select_vote_logged [simp]: "select_vote e (logged c w) pid sid = select_vote e w pid sid"
  by (simp add: select_vote_def logged_def)

lemma select_votes_logged [simp]: "select_votes e (logged c w) pid = select_votes e w pid"
  by (simp add: select_votes_def logged_def)

lemma logged_fields [simp]:
  "votes (logged c w) = votes w" "polls (logged c w) = polls w" "rooms (logged c w) = rooms w"
  "kv (logged c w) = kv w" "db_calls (logged c w) = db_calls w @ [c]"
  by (simp_all add: logged_def)

lemma createSession_fields:
  "createSession e sid rc rl w = Some w' \<Longrightarrow>
     votes w' = votes w \<and> polls w' = polls w \<and> rooms w' = rooms w \<and> db_calls w' = db_calls w"
  by (auto simp: createSession_def split: if_splits)

lemma insert_vote_fields:
  "insert_vote e w pid sid c = (r, w') \<Longrightarrow>
     polls w' = polls w \<and> rooms w' = rooms w \<and> kv w' = kv w \<and> db_calls w' = db_calls w"
  by (auto simp: insert_vote_def Let_def split: if_splits)

lemma uuid_poll [simp]: "uuidRegex_test poll_uuid"
  by (simp add: uuidRegex_test_def poll_uuid_def hex_digit_def)

lemma select_poll_sample [simp]:
  "\<not> poll_lookup_fails e \<Longrightarrow> p_id poll = poll_uuid \<Longrightarrow> p_room_id poll = room_uuid \<Longrightarrow>
   select_poll e (sample_world poll vs) poll_uuid = Data (poll, sample_room)"
  by (simp add: select_poll_def sample_world_def single_def sample_room_def)

lemma sample_env_fields [simp]:
  "now sample_env = 3600000" "\<not> poll_lookup_fails sample_env" "\<not> vote_check_fails sample_env"
  "\<not> vote_insert_fails sample_env" "\<not> votes_fetch_fails sample_env"
  "\<not> room_lookup_fails sample_env" "kv_configured sample_env" "\<not> kv_setex_fails sample_env"
  by (simp_all add: sample_env_def)

lemma sample_poll_fields [simp]:
  "p_id (sample_poll ty opts) = poll_uuid" "p_room_id (sample_poll ty opts) = room_uuid"
  "p_poll_type (sample_poll ty opts) = ty" "p_options (sample_poll ty opts) = opts"
  "p_is_active (sample_poll ty opts)"
  by (simp_all add: sample_poll_def)

subsection \<open>Auxiliary facts about the loop over a rating range\<close>

lemma nearest_double_exact: "\<bar>n\<bar> \<le> 2 ^ 53 \<Longrightarrow> nearest_double n = n"
proof -
  assume a: "\<bar>n\<bar> \<le> 2 ^ 53"
  consider "\<bar>n\<bar> < 2 ^ 53" | "n = 2 ^ 53" | "n = - (2 ^ 53)" using a by linarith
  then show ?thesis
  proof cases
    case 1
    then show ?thesis
      by (simp add: nearest_double_def scale_down.simps half_even_def sgn_if abs_if
               split: if_splits)
  next
    case 2
    then show ?thesis by (simp add: nearest_double_def scale_down.simps half_even_def)
  next
    case 3
    then show ?thesis by (simp add: nearest_double_def scale_down.simps half_even_def)
  qed
qed

text \<open>A loop that ends has run its body over a list of counter values, and every
  loop between the same bounds runs over the same list.\<close>

lemma for_loop_fold:
  assumes "for_loop body i hi s = Some y"
  shows "\<exists>is. y = fold body is s
           \<and> (\<forall>(body' :: int \<Rightarrow> 'b \<Rightarrow> 'b) s'. for_loop body' i hi s' = Some (fold body' is s'))"
proof (rule for_loop.raw_induct
    [where P = "\<lambda>body i hi s y. \<exists>is. y = fold body is s
                  \<and> (\<forall>(body' :: int \<Rightarrow> 'b \<Rightarrow> 'b) s'.
                        for_loop body' i hi s' = Some (fold body' is s'))",
     OF _ assms])
  fix loop :: "(int \<Rightarrow> 'a \<Rightarrow> 'a) \<Rightarrow> int \<Rightarrow> int \<Rightarrow> 'a \<Rightarrow> 'a option"
  fix body i hi s y
  assume IH: "\<And>body i hi s y. loop body i hi s = Some y \<Longrightarrow>
      \<exists>is. y = fold body is s
         \<and> (\<forall>(body' :: int \<Rightarrow> 'b \<Rightarrow> 'b) s'. for_loop body' i hi s' = Some (fold body' is s'))"
    and eq: "(if i \<le> hi then loop body (nearest_double (i + 1)) hi (body i s) else Some s)
               = Some y"
  show "\<exists>is. y = fold body is s
          \<and> (\<forall>(body' :: int \<Rightarrow> 'b \<Rightarrow> 'b) s'. for_loop body' i hi s' = Some (fold body' is s'))"
  proof (cases "i \<le> hi")
    case False
    with eq have "y = s" by simp
    moreover have "\<forall>(body' :: int \<Rightarrow> 'b \<Rightarrow> 'b) s'.
                     for_loop body' i hi s' = Some (fold body' [] s')"
      using False by (simp add: for_loop.simps)
    ultimately show ?thesis by (intro exI [of _ "[]"]) simp
  next
    case True
    with eq have "loop body (nearest_double (i + 1)) hi (body i s) = Some y" by simp
    from IH [OF this] obtain js where js: "y = fold body js (body i s)"
        "\<forall>(body' :: int \<Rightarrow> 'b \<Rightarrow> 'b) s'.
           for_loop body' (nearest_double (i + 1)) hi s' = Some (fold body' js s')"
      by blast
    have "\<forall>(body' :: int \<Rightarrow> 'b \<Rightarrow> 'b) s'. for_loop body' i hi s' = Some (fold body' (i # js) s')"
      using True js(2) by (simp add: for_loop.simps [of _ i])
    with js(1) show ?thesis by (intro exI [of _ "i # js"]) simp
  qed
qed

text \<open>Between bounds below \<open>2^53\<close> in magnitude the counter takes every integer from
  \<open>i\<close> to \<open>hi\<close>, and the loop ends.\<close>

lemma for_loop_safe:
  assumes "- (2 ^ 53) \<le> i" and "hi < 2 ^ 53"
  shows "for_loop body i hi s = Some (fold body [i..hi] s)"
  using assms(1)
proof (induction "nat (hi + 1 - i)" arbitrary: i s)
  case 0
  then have "hi < i" by simp
  then show ?case by (simp add: for_loop.simps)
next
  case (Suc n)
  then have le: "i \<le> hi" by simp
  have "\<bar>i + 1\<bar> \<le> 2 ^ 53" using le assms(2) Suc.prems by simp
  then have step: "nearest_double (i + 1) = i + 1" by (rule nearest_double_exact)
  have "n = nat (hi + 1 - (i + 1))" using Suc(2) by simp
  moreover have "- (2 ^ 53) \<le> i + 1" using Suc.prems by simp
  ultimately have "for_loop body (i + 1) hi (body i s) = Some (fold body [i + 1..hi] (body i s))"
    by (rule Suc(1))
  then show ?case
    using le by (simp add: for_loop.simps [of _ i] step upto_rec1 [of i hi])
qed

text \<open>A counter that \<^verbatim>\<open>i++\<close> leaves unchanged, at or below the upper bound, keeps the
  loop running for ever.\<close>

lemma for_loop_stuck:
  assumes "i \<le> hi" and "nearest_double (i + 1) = i"
  shows "for_loop body i hi s = None"
proof (rule ccontr)
  assume "for_loop body i hi s \<noteq> None"
  then obtain y where y: "for_loop body i hi s = Some y" by blast
  have "\<not> (i \<le> hi \<and> nearest_double (i + 1) = i)"
  proof (rule for_loop.raw_induct
      [where P = "\<lambda>body i hi s y. \<not> (i \<le> hi \<and> nearest_double (i + 1) = i)", OF _ y])
    fix loop :: "(int \<Rightarrow> 'a \<Rightarrow> 'a) \<Rightarrow> int \<Rightarrow> int \<Rightarrow> 'a \<Rightarrow> 'a option"
    fix body i hi s y
    assume IH: "\<And>body i hi s y. loop body i hi s = Some y \<Longrightarrow>
          \<not> (i \<le> hi \<and> nearest_double (i + 1) = i)"
      and eq: "(if i \<le> hi then loop body (nearest_double (i + 1)) hi (body i s) else Some s)
                 = Some y"
    show "\<not> (i \<le> hi \<and> nearest_double (i + 1) = i)"
    proof
      assume st: "i \<le> hi \<and> nearest_double (i + 1) = i"
      with eq have "loop body i hi (body i s) = Some y" by simp
      from IH [OF this] st show False by simp
    qed
  qed
  with assms show False by simp
qed

lemma for_loop_reaches_stuck:
  assumes "- (2 ^ 53) \<le> i" and "i \<le> 2 ^ 53" and "2 ^ 53 \<le> hi"
  shows "for_loop body i hi s = None"
  using assms(1,2)
proof (induction "nat (2 ^ 53 - i)" arbitrary: i s)
  case 0
  then have "i = 2 ^ 53" by simp
  moreover have "nearest_double (2 ^ 53 + 1) = 2 ^ 53"
    by (simp add: nearest_double_def scale_down.simps half_even_def)
  ultimately show ?case using assms(3) by (intro for_loop_stuck) simp_all
next
  case (Suc n)
  then have lt: "i < 2 ^ 53" by simp
  then have "\<bar>i + 1\<bar> \<le> 2 ^ 53" using Suc.prems by simp
  then have step: "nearest_double (i + 1) = i + 1" by (rule nearest_double_exact)
  have "n = nat (2 ^ 53 - (i + 1))" using Suc(2) by simp
  moreover have "- (2 ^ 53) \<le> i + 1" "i + 1 \<le> 2 ^ 53" using Suc.prems lt by simp_all
  ultimately have "for_loop body (i + 1) hi (body i s) = None"
    by (intro Suc(1))
  then show ?case
    using lt assms(3) by (simp add: for_loop.simps [of _ i] step)
qed

lemma fold_snoc_map: "fold (\<lambda>i ks. ks @ [f i]) is acc = acc @ map f is"
  by (induction "is" arbitrary: acc) simp_all

lemma bucket_keys_validChoices: "bucket_keys poll = validChoices poll"
  by (simp add: bucket_keys_def validChoices_def)

lemma binary_keys [simp]:
  "p_poll_type poll = ''yes_no'' \<Longrightarrow> validChoices poll = Some [''yes'', ''no'']"
  "p_poll_type poll = ''yes_no'' \<Longrightarrow> bucket_keys poll = Some [''yes'', ''no'']"
  by (simp_all add: validChoices_def bucket_keys_def)

text \<open>For a poll that carries a descriptor with readable bounds the vote handler's
  loop ends, and it collects the legal choice set of the spec.\<close>

lemma validChoices_legal:
  assumes "describes d poll" and "readable d"
  shows "validChoices poll = Some (legal_choices d)"
proof (cases d)
  case Binary
  with assms show ?thesis by (simp add: describes_def validChoices_def legal_choices_def)
next
  case (NumericRange lo hi)
  with assms have b: "lo \<noteq> 0" "hi \<noteq> 0" "\<bar>lo\<bar> < 2 ^ 53" "\<bar>hi\<bar> < 2 ^ 53"
    by (simp_all add: readable_def)
  then have rd: "nearest_double lo = lo" "nearest_double hi = hi"
    by (simp_all add: nearest_double_exact)
  have "for_loop (\<lambda>i vc. vc @ [toString i]) lo hi [] = Some (map toString [lo..hi])"
    using b(3,4) by (subst for_loop_safe) (simp_all add: fold_snoc_map)
  with NumericRange assms(1) b(1,2) show ?thesis
    by (simp add: describes_def validChoices_def legal_choices_def Number_def or_number_def rd)
next
  case (EnumeratedChoice m)
  with assms show ?thesis
    by (simp add: describes_def validChoices_def legal_choices_def Object_keys_def comp_def)
qed

subsection \<open>C7: a malformed identifier is rejected before any storage access\<close>

text \<open>
  Claim C7. For every \<open>pollId\<close> that does not have the UUID format, both
  \<open>submitVote\<close> and \<open>getResults\<close> answer 400 ``Invalid poll ID'' and return the state
  they were given: no table, no session entry and no entry of the log of storage
  requests changes, so no query was sent.
\<close>

theorem malformed_id_rejected_without_storage_access:
  "\<not> uuidRegex_test pollId \<Longrightarrow>
     submitVote e w pollId sessionId rawChoice
       = (Failure 400 ''Invalid poll ID'' ''Poll ID must be a valid UUID'', w)
     \<and> getResults e w pollId
       = (Failure 400 ''Invalid poll ID'' ''Poll ID must be a valid UUID'', w)
     \<and> db_calls (snd (submitVote e w pollId sessionId rawChoice)) = db_calls w
     \<and> db_calls (snd (getResults e w pollId)) = db_calls w"
  by (simp add: submitVote_def POST_vote_def getResults_def GET_results_def)

theorem malformed_id_witness:
  "\<not> uuidRegex_test ''not-a-valid-id''
   \<and> submitVote sample_env (sample_world binary_poll []) ''not-a-valid-id'' ''sess_A'' ''yes''
       = (Failure 400 ''Invalid poll ID'' ''Poll ID must be a valid UUID'',
          sample_world binary_poll [])
   \<and> getResults sample_env (sample_world binary_poll []) ''not-a-valid-id''
       = (Failure 400 ''Invalid poll ID'' ''Poll ID must be a valid UUID'',
          sample_world binary_poll [])"
  using malformed_id_rejected_without_storage_access
          [of "''not-a-valid-id''" sample_env "sample_world binary_poll []" "''sess_A''" "''yes''"]
  by (simp add: uuidRegex_test_def)

lemma late_env_fields [simp]:
  "now late_env = 90000000" "\<not> poll_lookup_fails late_env"
  by (simp_all add: late_env_def sample_env_def)

lemma closed_poll_fields [simp]:
  "p_id closed_poll = poll_uuid" "p_room_id closed_poll = room_uuid" "\<not> p_is_active closed_poll"
  by (simp_all add: closed_poll_def binary_poll_def)

lemma ballot_fields [simp]:
  "v_poll_id (ballot i c) = poll_uuid" "v_choice (ballot i c) = c"
  "v_session_id (ballot i c) = ''sess_'' @ nat_digits i" "v_created_at (ballot i c) = int i"
  by (simp_all add: ballot_def)

lemma sample_world_fields [simp]:
  "rooms (sample_world poll vs) = [sample_room]" "polls (sample_world poll vs) = [poll]"
  "votes (sample_world poll vs) = vs" "kv (sample_world poll vs) = []"
  "db_calls (sample_world poll vs) = []"
  by (simp_all add: sample_world_def)

lemma binary_poll_fields [simp]:
  "p_id binary_poll = poll_uuid" "p_room_id binary_poll = room_uuid"
  "p_poll_type binary_poll = ''yes_no''" "p_is_active binary_poll"
  by (simp_all add: binary_poll_def)

subsection \<open>C4: the order of the inactivity and expiration checks\<close>

text \<open>
  Claim C4 says that \<open>submitVote\<close> checks the room's expiration before the poll's
  \<open>is_active\<close> flag, so that a poll in an expired room is rejected as Expired even when
  it is inactive too. The handler tests \<^verbatim>\<open>poll.is_active\<close> first. At the sample
  poll, closed by its owner, in a room whose expiration has passed, the answer is
  ``Poll inactive'', not ``Room expired''.
\<close>

theorem expired_and_inactive_reports_inactive:
  "isRoomExpired (now late_env) (r_expires_at sample_room)
   \<and> \<not> p_is_active closed_poll
   \<and> select_poll late_env (sample_world closed_poll []) poll_uuid = Data (closed_poll, sample_room)
   \<and> fst (submitVote late_env (sample_world closed_poll []) poll_uuid ''sess_A'' ''yes'')
       = Failure 410 ''Poll inactive'' ''This poll is no longer accepting votes''
   \<and> fst (submitVote late_env (sample_world closed_poll []) poll_uuid ''sess_A'' ''yes'')
       \<noteq> Failure 410 ''Room expired'' ''The room containing this poll has expired''"
  by (simp add: submitVote_def POST_vote_def isRoomExpired_def sample_room_def)

text \<open>
  Claim C4, amended. For every poll that the lookup finds and whose room has a null or
  past expiration, \<open>submitVote\<close> rejects the vote with status 410 and records nothing:
  as Inactive when the poll's \<open>is_active\<close> flag is false (that check comes first), and as
  Expired when the poll is active.
\<close>

theorem inactive_checked_before_expired:
  assumes "uuidRegex_test pollId" and "rawChoice \<noteq> []"
    and "select_poll e w pollId = Data (poll, room)"
    and "isRoomExpired (now e) (r_expires_at room)"
  shows "fst (submitVote e w pollId sessionId rawChoice)
           = (if p_is_active poll
              then Failure 410 ''Room expired'' ''The room containing this poll has expired''
              else Failure 410 ''Poll inactive'' ''This poll is no longer accepting votes'')
         \<and> votes (snd (submitVote e w pollId sessionId rawChoice)) = votes w"
  using assms
  by (auto simp: submitVote_def POST_vote_def Let_def isRoomExpired_def split: option.splits)

theorem inactive_checked_before_expired_witness:
  "uuidRegex_test poll_uuid \<and> ''no'' \<noteq> []
   \<and> select_poll late_env (sample_world binary_poll []) poll_uuid = Data (binary_poll, sample_room)
   \<and> isRoomExpired (now late_env) (r_expires_at sample_room)
   \<and> fst (submitVote late_env (sample_world binary_poll []) poll_uuid ''sess_B'' ''no'')
       = Failure 410 ''Room expired'' ''The room containing this poll has expired''"
proof -
  have sel: "select_poll late_env (sample_world binary_poll []) poll_uuid
               = Data (binary_poll, sample_room)"
    by simp
  have ex: "isRoomExpired (now late_env) (r_expires_at sample_room)"
    by (simp add: isRoomExpired_def sample_room_def)
  have ne: "''no'' \<noteq> []" by simp
  show ?thesis
    using inactive_checked_before_expired [OF uuid_poll ne sel ex, of "''sess_B''"] sel ex
    by simp
qed

subsection \<open>C1: at most one vote per poll and session\<close>

lemma lower_char_idem [simp]: "lower_char (lower_char c) = lower_char c"
  by (simp add: lower_char_def case_table_def)

lemma pg_uuid_idem [simp]: "pg_uuid (pg_uuid s) = pg_uuid s"
  by (simp add: pg_uuid_def)

lemma distinct_filter_le1:
  "distinct (map f xs) \<Longrightarrow> length (filter (\<lambda>x. f x = k) xs) \<le> 1"
proof (induction xs)
  case Nil
  then show ?case by simp
next
  case (Cons x xs)
  show ?case
  proof (cases "f x = k")
    case True
    from Cons.prems have "f x \<notin> f ` set xs" by simp
    with True have "\<forall>y\<in>set xs. f y \<noteq> k" by blast
    then have "filter (\<lambda>x. f x = k) xs = []" by (simp add: filter_empty_conv)
    with True show ?thesis by simp
  next
    case False
    with Cons show ?thesis by simp
  qed
qed

lemma same_ballot_key:
  "same_ballot pid sid = (\<lambda>v. (pg_uuid (v_poll_id v), v_session_id v) = (pg_uuid pid, sid))"
  by (auto simp: same_ballot_def fun_eq_iff)

lemma unique_ballot:
  assumes "ledger_unique vs" and "list_ex (same_ballot pid sid) vs"
  shows "\<exists>v. filter (same_ballot pid sid) vs = [v]"
proof -
  have "length (filter (same_ballot pid sid) vs) \<le> 1"
    unfolding same_ballot_key
    using assms(1) by (intro distinct_filter_le1) (simp add: ledger_unique_def)
  moreover have "filter (same_ballot pid sid) vs \<noteq> []"
    using assms(2) by (auto simp: list_ex_iff filter_empty_conv)
  ultimately show ?thesis
    by (cases "filter (same_ballot pid sid) vs") auto
qed

lemma select_vote_existing:
  assumes "ledger_unique (votes w)" and "list_ex (same_ballot pid sid) (votes w)"
    and "\<not> vote_check_fails e"
  shows "\<exists>x. select_vote e w pid sid = Data x"
proof -
  obtain v where "filter (same_ballot pid sid) (votes w) = [v]"
    using unique_ballot [OF assms(1,2)] by blast
  then show ?thesis using assms(3) by (simp add: select_vote_def single_def)
qed

lemma insert_vote_refused:
  assumes "list_ex (same_ballot pid sid) (votes w)"
  shows "insert_vote e w pid sid c = (None, w)"
  using assms by (simp add: insert_vote_def Let_def)

lemma insert_vote_unique:
  assumes uniq: "ledger_unique (votes w)" and ins: "insert_vote e w pid sid c = (r, w')"
  shows "ledger_unique (votes w')"
proof (cases "votes w' = votes w")
  case True
  with uniq show ?thesis by simp
next
  case False
  with ins have fresh: "\<not> list_ex (same_ballot pid sid) (votes w)"
    and w': "votes w' = votes w @ [\<lparr>v_id = new_vote_id e, v_poll_id = pg_uuid pid, v_choice = c,
                 v_session_id = sid, v_created_at = now e\<rparr>]"
    by (auto simp: insert_vote_def Let_def split: if_splits)
  from fresh have "(pg_uuid pid, sid) \<notin> (\<lambda>v. (pg_uuid (v_poll_id v), v_session_id v)) ` set (votes w)"
    by (auto simp: list_ex_iff same_ballot_def)
  with uniq show ?thesis by (simp add: ledger_unique_def w')
qed

lemma POST_vote_keeps_unique:
  assumes "ledger_unique (votes w)"
  shows "ledger_unique (votes (snd (POST_vote e pid body header w)))"
  using assms
  by (auto simp: POST_vote_def Let_def
           split: option.splits jsdyn.splits pg_result.splits prod.splits
           dest!: createSession_fields dest: insert_vote_unique [rotated])

lemma POST_vote_keeps_catalog:
  "polls (snd (POST_vote e pid body header w)) = polls w
   \<and> rooms (snd (POST_vote e pid body header w)) = rooms w"
  by (auto simp: POST_vote_def Let_def
           split: option.splits jsdyn.splits pg_result.splits prod.splits
           dest!: createSession_fields insert_vote_fields)

lemma POST_vote_duplicate:
  assumes "list_ex (same_ballot pid (session_of e header)) (votes w)"
  shows "votes (snd (POST_vote e pid body header w)) = votes w
         \<and> (\<forall>st v. fst (POST_vote e pid body header w) \<noteq> Success st v)"
  using assms
  by (auto simp: POST_vote_def Let_def insert_vote_refused
           split: option.splits jsdyn.splits pg_result.splits)

lemma GET_results_cong:
  assumes "rooms w' = rooms w" and "polls w' = polls w" and "votes w' = votes w"
  shows "fst (GET_results e pid w') = fst (GET_results e pid w)"
proof -
  have "select_poll e w' pid = select_poll e w pid"
    using assms by (simp add: select_poll_def)
  moreover have "select_votes e w' pid = select_votes e w pid"
    using assms by (simp add: select_votes_def)
  ultimately show ?thesis
    by (simp add: GET_results_def Let_def split: pg_result.splits option.splits prod.splits)
qed

lemma ballot_1_recorded:
  "list_ex (same_ballot poll_uuid ''sess_1'') (votes (sample_world binary_poll [ballot 1 ''yes'']))"
  by (simp add: same_ballot_def nat_digits.simps digit_char_def)

text \<open>
  Claim C1 says that, once a vote of a session for a poll is recorded, a second
  \<open>submitVote\<close> for the same pair is rejected as DuplicateVote (409) whatever its choice.
  The handler looks for an earlier vote only after the choice has passed the choice-set
  check (step 5 of the spec's procedure comes before step 6). Session \<open>sess_1\<close> has
  voted \<open>yes\<close> on the binary poll; its second call, with the choice \<open>maybe\<close>, is answered
  400 ``Invalid choice'', not 409, and only the poll has been looked up.
\<close>

theorem second_vote_with_illegal_choice_is_invalid_choice:
  "list_ex (same_ballot poll_uuid ''sess_1'') (votes (sample_world binary_poll [ballot 1 ''yes'']))
   \<and> submitVote sample_env (sample_world binary_poll [ballot 1 ''yes'']) poll_uuid
        ''sess_1'' ''maybe''
       = (Failure 400 ''Invalid choice'' ''Choice must be one of: yes, no'',
          logged (SelectPoll poll_uuid) (sample_world binary_poll [ballot 1 ''yes'']))
   \<and> fst (submitVote sample_env (sample_world binary_poll [ballot 1 ''yes'']) poll_uuid
             ''sess_1'' ''maybe'')
       \<noteq> Failure 409 ''Already voted'' ''You have already voted on this poll''"
  using ballot_1_recorded
  by (simp add: submitVote_def POST_vote_def sample_room_def)

text \<open>
  Claim C1, amended. The ledger holds at most one vote per (poll, session) pair, and
  \<open>submitVote\<close> keeps it so. When a vote of the session for the poll is already
  recorded, a second \<open>submitVote\<close> for the same pair is never accepted, whatever its
  choice: the ledger is unchanged, it still holds exactly one vote of that session, and
  \<open>getResults\<close> answers afterwards as it did before. The rejection is DuplicateVote
  (409 ``Already voted'') when the call passes the checks that come first: the
  identifier is well-formed, the poll is found and active, its room is unexpired, the
  choice is in the legal choice set, and the lookup of the earlier vote succeeds. With
  a choice outside the legal set the rejection is InvalidChoice (400) instead. (The
  legal set is that of the spec, for a binary poll, an enumerated-choice poll, or a
  numeric-range poll whose bounds are readable and whose range fits an array.)
\<close>

theorem one_vote_per_poll_and_session:
  assumes "ledger_unique (votes w)" and "sessionId \<noteq> []"
  shows "ledger_unique (votes (snd (submitVote e w pollId sessionId rawChoice)))
   \<and> (list_ex (same_ballot pollId sessionId) (votes w) \<longrightarrow>
        votes (snd (submitVote e w pollId sessionId rawChoice)) = votes w
        \<and> (\<forall>st v. fst (submitVote e w pollId sessionId rawChoice) \<noteq> Success st v)
        \<and> length (filter (same_ballot pollId sessionId)
                    (votes (snd (submitVote e w pollId sessionId rawChoice)))) = 1
        \<and> fst (getResults e' (snd (submitVote e w pollId sessionId rawChoice)) pollId')
            = fst (getResults e' w pollId')
        \<and> (uuidRegex_test pollId \<and> rawChoice \<noteq> []
             \<and> select_poll e w pollId = Data (poll, room)
             \<and> p_is_active poll \<and> \<not> isRoomExpired (now e) (r_expires_at room)
             \<and> describes d poll \<and> readable d \<and> fits_array d \<and> \<not> vote_check_fails e
            \<longrightarrow> fst (submitVote e w pollId sessionId rawChoice)
                  = (if rawChoice \<in> set (legal_choices d)
                     then Failure 409 ''Already voted'' ''You have already voted on this poll''
                     else Failure 400 ''Invalid choice''
                            (''Choice must be one of: '' @ join (legal_choices d)))))"
proof (intro conjI impI)
  show "ledger_unique (votes (snd (submitVote e w pollId sessionId rawChoice)))"
    using assms(1) by (simp add: submitVote_def POST_vote_keeps_unique)
next
  assume dup: "list_ex (same_ballot pollId sessionId) (votes w)"
  have sess: "session_of e (Some sessionId) = sessionId"
    using assms(2) by (simp add: session_of_def)
  have keep: "votes (snd (submitVote e w pollId sessionId rawChoice)) = votes w"
    and never: "\<forall>st v. fst (submitVote e w pollId sessionId rawChoice) \<noteq> Success st v"
    using POST_vote_duplicate [of pollId e "Some sessionId" w "Some (JString rawChoice)"] dup
    by (simp_all add: submitVote_def sess)
  show "votes (snd (submitVote e w pollId sessionId rawChoice)) = votes w" by (rule keep)
  show "\<forall>st v. fst (submitVote e w pollId sessionId rawChoice) \<noteq> Success st v" by (rule never)
  show "length (filter (same_ballot pollId sessionId)
          (votes (snd (submitVote e w pollId sessionId rawChoice)))) = 1"
    using unique_ballot [OF assms(1) dup] by (auto simp: keep)
  show "fst (getResults e' (snd (submitVote e w pollId sessionId rawChoice)) pollId')
          = fst (getResults e' w pollId')"
    unfolding getResults_def
    using keep by (intro GET_results_cong) (simp_all add: submitVote_def POST_vote_keeps_catalog)
next
  assume dup: "list_ex (same_ballot pollId sessionId) (votes w)"
    and ctx: "uuidRegex_test pollId \<and> rawChoice \<noteq> []
             \<and> select_poll e w pollId = Data (poll, room)
             \<and> p_is_active poll \<and> \<not> isRoomExpired (now e) (r_expires_at room)
             \<and> describes d poll \<and> readable d \<and> fits_array d \<and> \<not> vote_check_fails e"
  have sess: "session_of e (Some sessionId) = sessionId"
    using assms(2) by (simp add: session_of_def)
  have keys: "validChoices poll = Some (legal_choices d)"
    using ctx by (intro validChoices_legal) simp_all
  obtain x where "select_vote e w pollId sessionId = Data x"
    using select_vote_existing [OF assms(1) dup] ctx by blast
  then show "fst (submitVote e w pollId sessionId rawChoice)
          = (if rawChoice \<in> set (legal_choices d)
             then Failure 409 ''Already voted'' ''You have already voted on this poll''
             else Failure 400 ''Invalid choice''
                    (''Choice must be one of: '' @ join (legal_choices d)))"
    using ctx
    by (auto simp: submitVote_def POST_vote_def Let_def sess isRoomExpired_def keys
             split: option.splits)
qed

theorem one_vote_per_poll_and_session_witness:
  "ledger_unique (votes (sample_world binary_poll [ballot 1 ''yes'']))
   \<and> ''sess_1'' \<noteq> []
   \<and> list_ex (same_ballot poll_uuid ''sess_1'') (votes (sample_world binary_poll [ballot 1 ''yes'']))
   \<and> describes Binary binary_poll \<and> readable Binary \<and> fits_array Binary
   \<and> ''no'' \<in> set (legal_choices Binary)
   \<and> fst (submitVote sample_env (sample_world binary_poll [ballot 1 ''yes'']) poll_uuid ''sess_1'' ''no'')
       = Failure 409 ''Already voted'' ''You have already voted on this poll''
   \<and> votes (snd (submitVote sample_env (sample_world binary_poll [ballot 1 ''yes''])
                    poll_uuid ''sess_1'' ''no''))
       = [ballot 1 ''yes'']"
proof -
  let ?w = "sample_world binary_poll [ballot 1 ''yes'']"
  have u: "ledger_unique (votes ?w)" by (simp add: ledger_unique_def)
  have s: "''sess_1'' \<noteq> []" by simp
  have d: "describes Binary binary_poll" "readable Binary" "fits_array Binary"
    by (simp_all add: describes_def readable_def fits_array_def)
  have c: "''no'' \<in> set (legal_choices Binary)" by (simp add: legal_choices_def)
  have sel: "select_poll sample_env ?w poll_uuid = Data (binary_poll, sample_room)" by simp
  have ex: "\<not> isRoomExpired (now sample_env) (r_expires_at sample_room)"
    by (simp add: isRoomExpired_def sample_room_def)
  show ?thesis
    using one_vote_per_poll_and_session
            [OF u s, of sample_env poll_uuid "''no''" _ _ binary_poll sample_room Binary]
      u ballot_1_recorded d c sel ex
    by simp
qed

subsection \<open>C5: the session upsert after a recorded vote\<close>

lemma pg_uuid_poll [simp]: "pg_uuid poll_uuid = poll_uuid"
  by (simp add: pg_uuid_def poll_uuid_def lower_char_def case_table_def)

lemma kv_failing_env_fields [simp]:
  "now kv_failing_env = 3600000" "\<not> poll_lookup_fails kv_failing_env"
  "\<not> vote_check_fails kv_failing_env" "\<not> vote_insert_fails kv_failing_env"
  "kv_configured kv_failing_env" "kv_setex_fails kv_failing_env"
  "new_vote_id kv_failing_env = new_vote_id sample_env"
  by (simp_all add: kv_failing_env_def sample_env_def)

text \<open>Once the insert has succeeded, the outcome of the request is decided by the
  session write alone; the vote stays in the ledger either way.\<close>

lemma session_write_decides_outcome:
  assumes "uuidRegex_test pollId" and "rawChoice \<noteq> []" and "sessionId \<noteq> []"
    and "select_poll e w pollId = Data (poll, room)" and "p_is_active poll"
    and "\<not> isRoomExpired (now e) (r_expires_at room)"
    and "validChoices poll = Some vc" and "rawChoice \<in> set vc"
    and "select_vote e w pollId sessionId = PGRST116"
    and "insert_vote e (logged (InsertVote pollId sessionId rawChoice)
            (logged (SelectVote pollId sessionId) (logged (SelectPoll pollId) w)))
            pollId sessionId rawChoice = (Some vote, w3)"
  shows "fst (submitVote e w pollId sessionId rawChoice)
           = (if kv_configured e \<and> kv_setex_fails e
              then Failure 500 ''Internal server error''
                     ''An unexpected error occurred while processing the vote''
              else Success 201 \<lparr>vote_id = v_id vote, vote_poll_id = v_poll_id vote,
                     vote_choice = v_choice vote, vote_created_at = v_created_at vote\<rparr>)
         \<and> votes (snd (submitVote e w pollId sessionId rawChoice)) = votes w3"
  using assms
  by (auto simp: submitVote_def POST_vote_def Let_def isRoomExpired_def session_of_def
                 createSession_def
           split: option.splits)

text \<open>
  Claim C5 says that a vote whose insert succeeds is answered 201 even if the session
  write fails. \<^verbatim>\<open>createSession\<close> returns quietly when no key-value client is
  configured, but it awaits \<^verbatim>\<open>client.setex\<close> with no handler, and the vote handler
  awaits \<^verbatim>\<open>createSession\<close> inside its own \<^verbatim>\<open>try\<close>. With a configured client whose
  write is rejected, the first vote of a session on the sample poll is recorded in the
  ledger and answered 500 ``Internal server error''.
\<close>

theorem vote_recorded_but_answered_500_when_session_write_fails:
  "kv_configured kv_failing_env \<and> kv_setex_fails kv_failing_env
   \<and> fst (submitVote kv_failing_env (sample_world binary_poll []) poll_uuid ''sess_A'' ''yes'')
       = Failure 500 ''Internal server error''
           ''An unexpected error occurred while processing the vote''
   \<and> votes (snd (submitVote kv_failing_env (sample_world binary_poll []) poll_uuid ''sess_A'' ''yes''))
       = [\<lparr>v_id = new_vote_id sample_env, v_poll_id = poll_uuid, v_choice = ''yes'',
           v_session_id = ''sess_A'', v_created_at = 3600000\<rparr>]"
  by (simp add: submitVote_def POST_vote_def session_of_def sample_room_def validChoices_def
        select_vote_def single_def insert_vote_def Let_def createSession_def)

subsection \<open>C9: the letter case of a room code\<close>

lemma upper_alnum_table:
  "list_all (\<lambda>c. upper_char c = c \<and> \<not> is_space c) ''ABCDEFGHIJKLMNOPQRSTUVWXYZ0123456789''"
  by (simp add: upper_char_def case_table_def is_space_def)

lemma upper_alnum_fixed: "upper_alnum c \<Longrightarrow> upper_char c = c \<and> \<not> is_space c"
  using upper_alnum_table unfolding upper_alnum_def list_all_iff by blast

text \<open>Every code that passes \<^verbatim>\<open>validateRoomCode\<close> is already in normal form: the
  normalisation that follows the validation never changes anything.\<close>

lemma validated_code_is_normal:
  assumes "validateRoomCode code"
  shows "normalizeRoomCode code = code"
proof -
  from assms have all: "list_all upper_alnum code" and ne: "code \<noteq> []"
    by (simp_all add: validateRoomCode_def)
  have up: "toUpperCase code = code"
    using all by (induction code) (simp_all add: toUpperCase_def upper_alnum_fixed)
  have nospace: "\<forall>c\<in>set code. \<not> is_space c"
    using all by (auto simp: list_all_iff upper_alnum_fixed)
  have "dropWhile is_space code = code"
    using ne nospace by (cases code) simp_all
  moreover have "dropWhile is_space (rev code) = rev code"
  proof (cases "rev code")
    case Nil
    then show ?thesis by simp
  next
    case (Cons y ys)
    then have "y \<in> set (rev code)" by simp
    then have "\<not> is_space y" using nospace by simp
    with Cons show ?thesis by simp
  qed
  ultimately show ?thesis
    by (simp add: normalizeRoomCode_def trim_def up)
qed

text \<open>
  Claim C9 says that a room code is upper-cased on input, so that the lower-case form
  of a stored code resolves the same room. The handler calls \<^verbatim>\<open>validateRoomCode\<close>
  on the code as supplied, and that pattern admits upper-case letters and digits only;
  \<^verbatim>\<open>normalizeRoomCode\<close> runs afterwards. The room stored under \<open>ABC123\<close> is found
  by \<open>ABC123\<close>, and \<open>abc123\<close>, which normalises to the same code, is answered
  400 ``Invalid room code'' before any lookup.
\<close>

theorem lowercase_room_code_rejected:
  "normalizeRoomCode ''abc123'' = ''ABC123''
   \<and> fst (GET_room sample_env ''ABC123'' None (sample_world binary_poll []))
       = Success 200 sample_room
   \<and> GET_room sample_env ''abc123'' None (sample_world binary_poll [])
       = (Failure 400 ''Invalid room code''
            ''Room code must be exactly 6 alphanumeric characters'',
          sample_world binary_poll [])"
  by (simp add: GET_room_def validateRoomCode_def upper_alnum_def normalizeRoomCode_def
        trim_def toUpperCase_def upper_char_def case_table_def is_space_def
        select_room_def single_def sample_room_def isRoomExpired_def createSession_def
        session_of_def Let_def)

subsection \<open>C2: validation of the choice against the legal choice set\<close>

lemma rating_poll_fields [simp]:
  "p_id (rating_poll lo hi) = poll_uuid" "p_room_id (rating_poll lo hi) = room_uuid"
  "p_poll_type (rating_poll lo hi) = ''rating''" "p_is_active (rating_poll lo hi)"
  "p_options (rating_poll lo hi) = [(''min'', Num lo), (''max'', Num hi)]"
  by (simp_all add: rating_poll_def)

lemma POST_vote_choice_check:
  assumes "uuidRegex_test pid" and "choice \<noteq> []"
    and "select_poll e w pid = Data (poll, room)" and "p_is_active poll"
    and "\<not> isRoomExpired (now e) (r_expires_at room)"
    and "validChoices poll = Some vc"
  shows "choice \<notin> set vc \<Longrightarrow>
           POST_vote e pid (Some (JString choice)) header w
             = (Failure 400 ''Invalid choice'' (''Choice must be one of: '' @ join vc),
                logged (SelectPoll pid) w)"
    and "choice \<in> set vc \<Longrightarrow>
           fst (POST_vote e pid (Some (JString choice)) header w) \<noteq> Unanswered
           \<and> (\<forall>details. fst (POST_vote e pid (Some (JString choice)) header w)
                  \<noteq> Failure 400 ''Invalid choice'' details)"
  using assms
  by (auto simp: POST_vote_def Let_def isRoomExpired_def
           split: option.splits pg_result.splits prod.splits)

lemma POST_vote_endless:
  assumes "uuidRegex_test pid" and "choice \<noteq> []"
    and "select_poll e w pid = Data (poll, room)" and "p_is_active poll"
    and "\<not> isRoomExpired (now e) (r_expires_at room)"
    and "validChoices poll = None"
  shows "POST_vote e pid (Some (JString choice)) header w
           = (Unanswered, logged (SelectPoll pid) w)"
  using assms
  by (auto simp: POST_vote_def Let_def isRoomExpired_def split: option.splits)

lemma small_keys:
  "toString 0 = ''0''" "toString 1 = ''1''" "toString 2 = ''2''" "toString 3 = ''3''"
  "toString 4 = ''4''" "toString 5 = ''5''"
  by (simp_all add: toString_def nat_digits.simps digit_char_def)

lemma legal_1_5: "legal_choices (NumericRange 1 5) = [''1'', ''2'', ''3'', ''4'', ''5'']"
  by (simp add: legal_choices_def small_keys upto_rec1)

lemma rating_1_5 [simp]:
  "describes (NumericRange 1 5) (rating_poll 1 5)" "readable (NumericRange 1 5)"
  by (simp_all add: describes_def readable_def)


lemma rating_0_3_keys: "validChoices (rating_poll 0 3) = Some [''1'', ''2'', ''3'']"
proof -
  have "nearest_double 0 = 0" "nearest_double 3 = 3"
    by (simp_all add: nearest_double_exact)
  moreover have "for_loop (\<lambda>i vc. vc @ [toString i]) 1 3 [] = Some (map toString [1..3])"
    by (subst for_loop_safe) (simp_all add: fold_snoc_map)
  ultimately show ?thesis
    by (simp add: validChoices_def Number_def or_number_def small_keys upto_rec1)
qed




text \<open>
  Beyond the readable bounds the handler may not answer at all. With the bounds
  \<open>2^53 - 2\<close> and \<open>2^53\<close>, a range of three integers, the counter reaches \<open>2^53\<close>,
  where \<^verbatim>\<open>i++\<close> leaves it unchanged: the loop that fills \<^verbatim>\<open>validChoices\<close> never ends
  and the vote request stays unanswered.
\<close>

lemma endless_poll_fields [simp]:
  "p_id endless_poll = poll_uuid" "p_room_id endless_poll = room_uuid"
  "p_is_active endless_poll"
  by (simp_all add: endless_poll_def)

lemma endless_poll_keys: "validChoices endless_poll = None"
proof -
  have "nearest_double (2 ^ 53 - 2) = 2 ^ 53 - 2" "nearest_double (2 ^ 53) = 2 ^ 53"
    by (simp_all add: nearest_double_exact)
  moreover have "for_loop (\<lambda>i vc. vc @ [toString i]) (2 ^ 53 - 2) (2 ^ 53) [] = None"
    by (rule for_loop_reaches_stuck) simp_all
  ultimately show ?thesis
    by (simp add: endless_poll_def validChoices_def Number_def or_number_def)
qed

lemma vote_on_endless_poll_unanswered:
  "describes (NumericRange (2 ^ 53 - 2) (2 ^ 53)) endless_poll
   \<and> submitVote sample_env (sample_world endless_poll []) poll_uuid ''sess_A'' ''1''
       = (Unanswered, logged (SelectPoll poll_uuid) (sample_world endless_poll []))"
proof -
  have sel: "select_poll sample_env (sample_world endless_poll []) poll_uuid
               = Data (endless_poll, sample_room)" by simp
  have ex: "\<not> isRoomExpired (now sample_env) (r_expires_at sample_room)"
    by (simp add: isRoomExpired_def sample_room_def)
  have ne: "''1'' \<noteq> []" by simp
  have act: "p_is_active endless_poll" by simp
  show ?thesis
    using POST_vote_endless [OF uuid_poll ne sel act ex endless_poll_keys, of "Some ''sess_A''"]
    by (simp add: submitVote_def describes_def endless_poll_def)
qed

subsection \<open>Auxiliary facts about the aggregator\<close>

lemma map_of_obj_set:
  "map_of (obj_set x v obj) k = (if k = x \<and> x \<noteq> ''__proto__'' then Some v else map_of obj k)"
  by (simp add: obj_set_def update_conv')

lemma keys_obj_set:
  "fst ` set (obj_set x v obj) = (if x = ''__proto__'' then fst ` set obj else insert x (fst ` set obj))"
  by (simp add: obj_set_def dom_update)

lemma distinct_obj_set:
  "distinct (map fst obj) \<Longrightarrow> distinct (map fst (obj_set x v obj))"
  by (simp add: obj_set_def distinct_update)

lemma map_of_fold_obj_set:
  "map_of (fold (\<lambda>x obj. obj_set x (f x) obj) ks obj0) k
     = (if k \<in> set ks \<and> k \<noteq> ''__proto__'' then Some (f k) else map_of obj0 k)"
proof (induction ks arbitrary: obj0)
  case Nil
  show ?case by simp
next
  case (Cons x xs)
  show ?case by (simp add: Cons.IH map_of_obj_set)
qed

lemma keys_fold_obj_set:
  "fst ` set (fold (\<lambda>x obj. obj_set x (f x) obj) ks obj0)
     = fst ` set obj0 \<union> (set ks - {''__proto__''})"
proof (induction ks arbitrary: obj0)
  case Nil
  show ?case by simp
next
  case (Cons x xs)
  show ?case by (auto simp: Cons.IH keys_obj_set)
qed

lemma distinct_fold_obj_set:
  "distinct (map fst obj0) \<Longrightarrow>
   distinct (map fst (fold (\<lambda>x obj. obj_set x (f x) obj) ks obj0))"
  by (induction ks arbitrary: obj0) (simp_all add: distinct_obj_set)

lemma map_of_init_zero:
  "map_of (init_zero ks) k = (if k \<in> set ks \<and> k \<noteq> ''__proto__'' then Some 0 else None)"
  by (simp add: init_zero_def map_of_fold_obj_set)

lemma keys_init_zero: "fst ` set (init_zero ks) = set ks - {''__proto__''}"
  by (simp add: init_zero_def keys_fold_obj_set)

lemma hasOwnProperty_init_zero:
  "hasOwnProperty (init_zero ks) k \<longleftrightarrow> k \<in> set ks \<and> k \<noteq> ''__proto__''"
  by (simp add: hasOwnProperty_def map_of_init_zero)

lemma votes_for_Cons:
  "votes_for k (vote # rest) = (if fst vote = k then Suc (votes_for k rest) else votes_for k rest)"
  by (simp add: votes_for_def)

lemma count_votes_tally:
  assumes "\<not> hasOwnProperty voteCounts ''hasOwnProperty''"
  shows "\<exists>tally. count_votes voteCounts fetched = Some tally
           \<and> map fst tally = map fst voteCounts
           \<and> (\<forall>k. map_of tally k = map_option (\<lambda>n. n + votes_for k fetched) (map_of voteCounts k))"
  using assms
proof (induction fetched arbitrary: voteCounts)
  case Nil
  show ?case by (simp add: votes_for_def option.map_ident)
next
  case (Cons vote rest)
  show ?case
  proof (cases "hasOwnProperty voteCounts (fst vote)")
    case False
    then have none: "map_of voteCounts (fst vote) = None" by (simp add: hasOwnProperty_def)
    obtain tally where t: "count_votes voteCounts rest = Some tally"
        "map fst tally = map fst voteCounts"
        "\<forall>k. map_of tally k = map_option (\<lambda>n. n + votes_for k rest) (map_of voteCounts k)"
      using Cons.IH [OF Cons.prems] by blast
    have "\<forall>k. map_of tally k
             = map_option (\<lambda>n. n + votes_for k (vote # rest)) (map_of voteCounts k)"
      using t(3) none by (auto simp: votes_for_Cons)
    with t(1,2) Cons.prems False show ?thesis by simp
  next
    case True
    then obtain n where some: "map_of voteCounts (fst vote) = Some n"
      by (auto simp: hasOwnProperty_def)
    let ?vc = "AList.update (fst vote) (n + 1) voteCounts"
    have keys: "map fst ?vc = map fst voteCounts"
      using some by (simp add: update_keys) (metis domI dom_map_of_conv_image_fst)
    have "\<not> hasOwnProperty ?vc ''hasOwnProperty''"
      using Cons.prems True by (auto simp: hasOwnProperty_def update_conv')
    then obtain tally where t: "count_votes ?vc rest = Some tally"
        "map fst tally = map fst ?vc"
        "\<forall>k. map_of tally k = map_option (\<lambda>n. n + votes_for k rest) (map_of ?vc k)"
      using Cons.IH by blast
    have "\<forall>k. map_of tally k
             = map_option (\<lambda>n. n + votes_for k (vote # rest)) (map_of voteCounts k)"
      using t(3) some by (auto simp: votes_for_Cons update_conv')
    with t(1,2) keys Cons.prems True some show ?thesis by (simp add: or_zero_def)
  qed
qed

lemma count_votes_empty [simp]: "count_votes voteCounts [] = Some voteCounts"
  by simp

lemma count_votes_shadowed:
  "hasOwnProperty voteCounts ''hasOwnProperty'' \<Longrightarrow> fetched \<noteq> [] \<Longrightarrow>
   count_votes voteCounts fetched = None"
  by (cases fetched) simp_all

lemma map_of_calc_percentages:
  "map_of (calc_percentages voteCounts votePercentages totalVotes) k
     = (if 0 < totalVotes \<and> k \<in> fst ` set voteCounts \<and> k \<noteq> ''__proto__''
        then Some (percentage_of (or_zero (map_of voteCounts k)) totalVotes)
        else map_of votePercentages k)"
  by (simp add: calc_percentages_def Object_keys_def map_of_fold_obj_set)

lemma percentage_of_zero [simp]: "percentage_of 0 t = 0"
  by (simp add: percentage_of_def fdiv_def round53_def fmul100_def Math_round_def)


text \<open>When the loop of the first \<^verbatim>\<open>switch\<close> has ended, so does the loop of the
  second, and the formatted results have one entry for each bucket key.\<close>

lemma format_results_spec:
  assumes "bucket_keys poll = Some ks"
  shows "\<exists>fr. format_results poll voteCounts votePercentages = Some fr
           \<and> fst ` set fr = set ks - {''__proto__''}
           \<and> distinct (map fst fr)
           \<and> (\<forall>k. k \<in> set ks \<and> k \<noteq> ''__proto__'' \<longrightarrow>
                 (\<exists>lbl. map_of fr k
                    = Some \<lparr>label = lbl, count = or_zero (map_of voteCounts k),
                            percentage = or_zero (map_of votePercentages k)\<rparr>))"
proof -
  have folded: "fst ` set (fold (\<lambda>key obj. obj_set key (g key) obj) ks []) = set ks - {''__proto__''}
      \<and> distinct (map fst (fold (\<lambda>key obj. obj_set key (g key) obj) ks []))
      \<and> (\<forall>k. k \<in> set ks \<and> k \<noteq> ''__proto__'' \<longrightarrow>
            map_of (fold (\<lambda>key obj. obj_set key (g key) obj) ks []) k = Some (g k))"
    for g :: "string \<Rightarrow> result_entry"
    by (simp add: keys_fold_obj_set distinct_fold_obj_set map_of_fold_obj_set)
  consider (binary) "p_poll_type poll = ''yes_no''"
    | (rating) "p_poll_type poll \<noteq> ''yes_no''" "p_poll_type poll = ''rating''"
    | (other) "p_poll_type poll \<noteq> ''yes_no''" "p_poll_type poll \<noteq> ''rating''"
    by blast
  then show ?thesis
  proof cases
    case binary
    with assms have "ks = [''yes'', ''no'']" by simp
    with binary show ?thesis by (auto simp: format_results_def Let_def)
  next
    case rating
    let ?lo = "or_number (Number (map_of (p_options poll) ''min'')) 1"
    let ?hi = "or_number (Number (map_of (p_options poll) ''max'')) 5"
    let ?g = "\<lambda>key. \<lparr>label = key, count = or_zero (map_of voteCounts key),
                      percentage = or_zero (map_of votePercentages key)\<rparr>"
    have "for_loop (\<lambda>i keys. keys @ [toString i]) ?lo ?hi [] = Some ks"
      using assms rating by (simp add: bucket_keys_def Let_def)
    from for_loop_fold [OF this]
    obtain "is" where "is": "ks = fold (\<lambda>i keys. keys @ [toString i]) is []"
        "\<forall>(body' :: int \<Rightarrow> result_entry jsobj \<Rightarrow> result_entry jsobj) s'.
           for_loop body' ?lo ?hi s' = Some (fold body' is s')"
      by blast
    have ks: "ks = map toString is"
      using "is"(1) by (simp add: fold_snoc_map)
    have "format_results poll voteCounts votePercentages
            = Some (fold (\<lambda>i obj. obj_set (toString i) (?g (toString i)) obj) is [])"
      using rating "is"(2) by (simp add: format_results_def Let_def)
    also have "fold (\<lambda>i obj. obj_set (toString i) (?g (toString i)) obj) is []
                 = fold (\<lambda>key obj. obj_set key (?g key) obj) ks []"
      by (simp add: ks fold_map comp_def)
    finally have "format_results poll voteCounts votePercentages
                    = Some (fold (\<lambda>key obj. obj_set key (?g key) obj) ks [])" .
    with folded [of ?g] show ?thesis by auto
  next
    case other
    let ?g = "\<lambda>key. \<lparr>label = String_of (map_of (p_options poll) key),
                      count = or_zero (map_of voteCounts key),
                      percentage = or_zero (map_of votePercentages key)\<rparr>"
    have "ks = Object_keys (p_options poll)"
      using assms other by (simp add: bucket_keys_def Let_def)
    then have "format_results poll voteCounts votePercentages
            = Some (fold (\<lambda>key obj. obj_set key (?g key) obj) ks [])"
      using other by (simp add: format_results_def Let_def)
    with folded [of ?g] show ?thesis by auto
  qed
qed

lemma GET_results_success:
  assumes "uuidRegex_test pid" and "select_poll e w pid = Data (poll, room)"
    and "\<not> isRoomExpired (now e) (r_expires_at room)"
    and "select_votes e w pid = Some fetched"
    and "bucket_keys poll = Some ks"
    and "count_votes (init_zero ks) fetched = Some tally"
    and "format_results poll tally (calc_percentages tally (init_zero ks) (length fetched))
           = Some fr"
  shows "GET_results e pid w
           = (Success 200
                \<lparr>res_poll_id = pid, res_question = p_question poll,
                 res_poll_type = p_poll_type poll, total_votes = length fetched,
                 results = fr, last_updated = now e,
                 res_room = (r_id room, r_code room, r_name room)\<rparr>,
              logged (SelectVotes pid) (logged (SelectPoll pid) w))"
  using assms
  by (auto simp: GET_results_def Let_def isRoomExpired_def split: option.splits)

lemma GET_results_shadowed:
  assumes "uuidRegex_test pid" and "select_poll e w pid = Data (poll, room)"
    and "\<not> isRoomExpired (now e) (r_expires_at room)"
    and "select_votes e w pid = Some fetched"
    and "bucket_keys poll = Some ks"
    and "count_votes (init_zero ks) fetched = None"
  shows "fst (GET_results e pid w)
           = Failure 500 ''Internal server error''
               ''An unexpected error occurred while getting poll results''"
  using assms
  by (auto simp: GET_results_def Let_def isRoomExpired_def split: option.splits)

lemma GET_results_endless:
  assumes "uuidRegex_test pid" and "select_poll e w pid = Data (poll, room)"
    and "\<not> isRoomExpired (now e) (r_expires_at room)"
    and "select_votes e w pid = Some fetched"
    and "bucket_keys poll = None"
  shows "GET_results e pid w
           = (Unanswered, logged (SelectVotes pid) (logged (SelectPoll pid) w))"
  using assms
  by (auto simp: GET_results_def Let_def isRoomExpired_def split: option.splits)

lemma tally_of_bucket:
  assumes "''hasOwnProperty'' \<notin> set ks \<or> fetched = []"
  shows "\<exists>tally. count_votes (init_zero ks) fetched = Some tally
           \<and> fst ` set tally = set ks - {''__proto__''}
           \<and> (\<forall>k. k \<in> set ks \<and> k \<noteq> ''__proto__''
                  \<longrightarrow> map_of tally k = Some (votes_for k fetched))"
proof (cases "fetched = []")
  case True
  then show ?thesis
    by (simp add: keys_init_zero map_of_init_zero votes_for_def)
next
  case False
  with assms have "\<not> hasOwnProperty (init_zero ks) ''hasOwnProperty''"
    by (simp add: hasOwnProperty_init_zero)
  from count_votes_tally [OF this, of fetched]
  obtain tally where t: "count_votes (init_zero ks) fetched = Some tally"
      "map fst tally = map fst (init_zero ks)"
      "\<forall>k. map_of tally k
             = map_option (\<lambda>n. n + votes_for k fetched) (map_of (init_zero ks) k)"
    by blast
  have "fst ` set tally = set (map fst tally)" by simp
  also have "\<dots> = fst ` set (init_zero ks)" by (simp only: t(2)) simp
  finally have "fst ` set tally = set ks - {''__proto__''}"
    by (simp add: keys_init_zero)
  with t(1,3) show ?thesis by (auto simp: map_of_init_zero)
qed

text \<open>The result set of a poll whose bucket keys are \<open>ks\<close>: one entry for each key, with
  the number of fetched votes for the key and the percentage computed from it.\<close>

lemma results_entry:
  assumes ctx: "uuidRegex_test pid" "select_poll e w pid = Data (poll, room)"
      "\<not> isRoomExpired (now e) (r_expires_at room)" "select_votes e w pid = Some fetched"
    and keys: "bucket_keys poll = Some ks"
    and safe: "''hasOwnProperty'' \<notin> set ks \<or> fetched = []"
  shows "\<exists>r. GET_results e pid w
                = (Success 200 r, logged (SelectVotes pid) (logged (SelectPoll pid) w))
           \<and> total_votes r = length fetched
           \<and> fst ` set (results r) = set ks - {''__proto__''}
           \<and> distinct (map fst (results r))
           \<and> (\<forall>k. k \<in> set ks \<and> k \<noteq> ''__proto__'' \<longrightarrow>
                 (\<exists>lbl. map_of (results r) k
                    = Some \<lparr>label = lbl, count = votes_for k fetched,
                            percentage = (if fetched = [] then 0
                               else percentage_of (votes_for k fetched) (length fetched))\<rparr>))"
proof -
  obtain tally where t: "count_votes (init_zero ks) fetched = Some tally"
      "fst ` set tally = set ks - {''__proto__''}"
      "\<forall>k. k \<in> set ks \<and> k \<noteq> ''__proto__'' \<longrightarrow> map_of tally k = Some (votes_for k fetched)"
    using tally_of_bucket [OF safe] by blast
  let ?vp = "calc_percentages tally (init_zero ks) (length fetched)"
  obtain fr where fr: "format_results poll tally ?vp = Some fr"
      "fst ` set fr = set ks - {''__proto__''}" "distinct (map fst fr)"
      "\<forall>k. k \<in> set ks \<and> k \<noteq> ''__proto__'' \<longrightarrow>
          (\<exists>lbl. map_of fr k = Some \<lparr>label = lbl, count = or_zero (map_of tally k),
                                     percentage = or_zero (map_of ?vp k)\<rparr>)"
    using format_results_spec [OF keys, of tally ?vp] by blast
  let ?r = "\<lparr>res_poll_id = pid, res_question = p_question poll,
             res_poll_type = p_poll_type poll, total_votes = length fetched,
             results = fr, last_updated = now e,
             res_room = (r_id room, r_code room, r_name room)\<rparr>"
  have run: "GET_results e pid w
               = (Success 200 ?r, logged (SelectVotes pid) (logged (SelectPoll pid) w))"
    using GET_results_success [OF ctx keys t(1) fr(1)] .
  have entry: "\<exists>lbl. map_of (results ?r) k
                 = Some \<lparr>label = lbl, count = votes_for k fetched,
                         percentage = (if fetched = [] then 0
                            else percentage_of (votes_for k fetched) (length fetched))\<rparr>"
    if k: "k \<in> set ks" "k \<noteq> ''__proto__''" for k
  proof -
    have c: "or_zero (map_of tally k) = votes_for k fetched"
      using t(3) k by (simp add: or_zero_def)
    have "map_of ?vp k = Some (if fetched = [] then 0
                                else percentage_of (votes_for k fetched) (length fetched))"
      using k t(2) c by (simp add: map_of_calc_percentages map_of_init_zero)
    then have p: "or_zero (map_of ?vp k)
                    = (if fetched = [] then 0
                       else percentage_of (votes_for k fetched) (length fetched))"
      by (simp add: or_zero_def)
    from fr(4) k obtain lbl where
      "map_of fr k = Some \<lparr>label = lbl, count = or_zero (map_of tally k),
                            percentage = or_zero (map_of ?vp k)\<rparr>"
      by blast
    then show ?thesis by (simp only: c p) simp
  qed
  have "fst ` set (results ?r) = set ks - {''__proto__''}"
    and "distinct (map fst (results ?r))"
    using fr(2,3) by simp_all
  with run entry show ?thesis
    by (intro exI [of _ ?r]) simp
qed

subsection \<open>The percentage against exact arithmetic\<close>

text \<open>
  Each of the two floating-point operations is within a relative error of \<open>2^-53\<close> of
  the exact result, so the value handed to \<^verbatim>\<open>Math.round\<close> is within \<open>201 / 2^53\<close>
  of \<open>100 * count / total\<close>. For totals below \<open>2^32\<close> (the bound on the length of a
  JavaScript array) that is less than the distance of the exact quotient from the
  nearest half-integer, unless the quotient is a half-integer itself.
\<close>

lemma scale_up_spec:
  assumes "0 < n" and "0 < d" and "scale_up n d e = (n', d', e')"
  shows "d' = d \<and> 0 < n' \<and> 2 ^ 52 * d \<le> n' \<and> (n < 2 ^ 53 * d \<longrightarrow> n' < 2 ^ 53 * d)
         \<and> (of_int n' :: real) * 2 powi e' = of_int n * 2 powi e"
  using assms
proof (induction n d e rule: scale_up.induct)
  case (1 n d e)
  show ?case
  proof (cases "n < 2 ^ 52 * d")
    case True
    then have step: "scale_up (2 * n) d (e - 1) = (n', d', e')"
      using "1.prems" by (simp add: scale_up.simps [of n d e])
    have "d' = d \<and> 0 < n' \<and> 2 ^ 52 * d \<le> n' \<and> (2 * n < 2 ^ 53 * d \<longrightarrow> n' < 2 ^ 53 * d)
         \<and> (of_int n' :: real) * 2 powi e' = of_int (2 * n) * 2 powi (e - 1)"
      using "1.IH" [OF _ _ "1.prems"(2) step] True "1.prems"(1) by simp
    moreover have "(of_int (2 * n) :: real) * 2 powi (e - 1) = of_int n * 2 powi e"
      by (simp add: power_int_diff)
    ultimately show ?thesis using True by simp
  next
    case False
    then have "(n', d', e') = (n, d, e)"
      using "1.prems" by (simp add: scale_up.simps [of n d e])
    with False "1.prems" show ?thesis by simp
  qed
qed

lemma scale_down_spec:
  assumes "0 < n" and "0 < d" and "scale_down n d e = (n', d', e')"
  shows "n' = n \<and> 0 < d' \<and> n < 2 ^ 53 * d' \<and> (2 ^ 52 * d \<le> n \<longrightarrow> 2 ^ 52 * d' \<le> n)
         \<and> (2 powi e' :: real) / of_int d' = 2 powi e / of_int d"
  using assms
proof (induction n d e rule: scale_down.induct)
  case (1 n d e)
  show ?case
  proof (cases "2 ^ 53 * d \<le> n")
    case True
    then have step: "scale_down n (2 * d) (e + 1) = (n', d', e')"
      using "1.prems" by (simp add: scale_down.simps [of n d e])
    have "n' = n \<and> 0 < d' \<and> n < 2 ^ 53 * d' \<and> (2 ^ 52 * (2 * d) \<le> n \<longrightarrow> 2 ^ 52 * d' \<le> n)
         \<and> (2 powi e' :: real) / of_int d' = 2 powi (e + 1) / of_int (2 * d)"
      using "1.IH" [OF _ "1.prems"(1) _ step] True "1.prems"(2) by simp
    moreover have "(2 powi (e + 1) :: real) / of_int (2 * d) = 2 powi e / of_int d"
      using "1.prems"(2) by (simp add: power_int_add)
    ultimately show ?thesis using True by simp
  next
    case False
    then have "(n', d', e') = (n, d, e)"
      using "1.prems" by (simp add: scale_down.simps [of n d e])
    with False "1.prems" show ?thesis by simp
  qed
qed

lemma half_even_err:
  assumes "0 < d"
  shows "\<bar>of_int (half_even n d) - (of_int n :: real) / of_int d\<bar> \<le> 1 / 2"
proof -
  define q where "q = n div d"
  define r where "r = n mod d"
  have n: "n = q * d + r" and r: "0 \<le> r" "r < d"
    using assms by (simp_all add: q_def r_def)
  have frac: "(of_int n :: real) / of_int d = of_int q + of_int r / of_int d"
    using assms by (simp add: n field_simps)
  have r01: "0 \<le> (of_int r :: real) / of_int d" "(of_int r :: real) / of_int d < 1"
    using r assms by simp_all
  consider (lo) "2 * r < d" | (hi) "d < 2 * r" | (tie) "2 * r = d" by linarith
  then show ?thesis
  proof cases
    case lo
    then have "half_even n d = q" by (simp add: half_even_def q_def r_def Let_def)
    moreover have "(of_int r :: real) / of_int d < 1 / 2"
      using lo assms by (simp add: field_simps)
    ultimately show ?thesis using r01 by (simp add: frac)
  next
    case hi
    then have "half_even n d = q + 1" by (simp add: half_even_def q_def r_def Let_def)
    moreover have "1 / 2 < (of_int r :: real) / of_int d"
      using hi assms by (simp add: field_simps)
    ultimately show ?thesis using r01 by (simp add: frac)
  next
    case tie
    then have alt: "half_even n d = q \<or> half_even n d = q + 1"
      by (simp add: half_even_def q_def r_def Let_def)
    have "(of_int d :: real) = 2 * of_int r"
      using tie by (metis of_int_mult of_int_numeral)
    then have half: "(of_int r :: real) / of_int d = 1 / 2"
      using assms by simp
    from alt show ?thesis
    proof
      assume "half_even n d = q"
      then show ?thesis unfolding frac half by simp
    next
      assume "half_even n d = q + 1"
      then show ?thesis unfolding frac half by simp
    qed
  qed
qed


lemma round53_err:
  assumes "0 < n" and "0 < d"
  shows "\<exists>m e'. round53 n d e = (m, e') \<and> 0 < m
           \<and> \<bar>val (m, e') - of_int n / of_int d * 2 powi e\<bar>
                \<le> of_int n / of_int d * 2 powi e / 2 ^ 53"
proof -
  obtain n1 d1 e1 where up: "scale_up n d e = (n1, d1, e1)"
    by (metis prod_cases3)
  obtain n2 d2 e2 where down: "scale_down n1 d1 e1 = (n2, d2, e2)"
    by (metis prod_cases3)
  from scale_up_spec [OF assms up]
  have u: "d1 = d" "0 < n1" "2 ^ 52 * d \<le> n1"
      "(of_int n1 :: real) * 2 powi e1 = of_int n * 2 powi e"
    by simp_all
  from scale_down_spec [OF u(2) _ down] assms(2) u(1,3)
  have dn: "n2 = n1" "0 < d2" "n1 < 2 ^ 53 * d2" "2 ^ 52 * d2 \<le> n1"
      "(2 powi e2 :: real) / of_int d2 = 2 powi e1 / of_int d"
    by simp_all
  define x :: real where "x = of_int n / of_int d * 2 powi e"
  define s :: real where "s = 2 powi e2"
  have s_pos: "0 < s" by (simp add: s_def)
  have "x = of_int n1 * (2 powi e1 / of_int d)"
    using u(4) by (simp add: x_def field_simps)
  also have "\<dots> = of_int n1 * (s / of_int d2)"
    by (simp add: dn(5) s_def)
  finally have x_eq: "x = of_int n1 / of_int d2 * s" by simp
  have big: "(2 ^ 52 :: real) \<le> of_int n1 / of_int d2"
  proof -
    have "(of_int (2 ^ 52 * d2) :: real) \<le> of_int n1"
      using dn(4) by (simp only: of_int_le_iff)
    then show ?thesis using dn(2) by (simp add: field_simps)
  qed
  let ?m = "half_even n1 d2"
  have err: "\<bar>of_int ?m - (of_int n1 :: real) / of_int d2\<bar> \<le> 1 / 2"
    using half_even_err [OF dn(2)] .
  have m_pos: "0 < ?m"
  proof -
    have "(1 :: real) \<le> 2 ^ 52" by simp
    with err big have "(0 :: real) < of_int ?m" by linarith
    then show ?thesis by simp
  qed
  have r: "round53 n d e = (?m, e2)"
    using assms up down dn(1) by (simp add: round53_def)
  have "val (?m, e2) - x = s * (of_int ?m - (of_int n1 :: real) / of_int d2)"
    by (simp add: val_def x_eq s_def [symmetric] algebra_simps)
  then have "\<bar>val (?m, e2) - x\<bar> = s * \<bar>of_int ?m - (of_int n1 :: real) / of_int d2\<bar>"
    using s_pos by (simp add: abs_mult)
  also have "\<dots> \<le> s * (1 / 2)"
    using err s_pos by (intro mult_left_mono) simp_all
  also have "\<dots> \<le> x / 2 ^ 53"
  proof -
    have "2 ^ 52 * s \<le> x"
      unfolding x_eq using big s_pos by (intro mult_right_mono) simp_all
    then show ?thesis by simp
  qed
  finally show ?thesis using r m_pos by (auto simp: x_def)
qed

lemma Math_round_floor:
  assumes "0 \<le> m"
  shows "int (Math_round (m, e)) = \<lfloor>val (m, e) + 1 / 2\<rfloor>"
proof (cases "0 \<le> e")
  case True
  then have "val (m, e) = of_int (m * 2 ^ nat e)"
    by (simp add: val_def power_int_nonneg_exp)
  then have "\<lfloor>val (m, e) + 1 / 2\<rfloor> = m * 2 ^ nat e"
    by (simp only:) linarith
  with True assms show ?thesis by (simp add: Math_round_def)
next
  case False
  define k where "k = nat (- e)"
  have e: "e = - int k" using False by (simp add: k_def)
  have v: "val (m, e) + 1 / 2 = of_int (2 * m + 2 ^ k) / of_int (2 * 2 ^ k)"
    by (simp add: val_def e power_int_minus field_simps)
  have "\<lfloor>val (m, e) + 1 / 2\<rfloor> = (2 * m + 2 ^ k) div (2 * 2 ^ k)"
    unfolding v by (rule floor_divide_of_int_eq)
  moreover have "0 \<le> (2 * m + 2 ^ k) div (2 * 2 ^ k)"
    using assms by (intro pos_imp_zdiv_nonneg_iff [THEN iffD2]) simp_all
  ultimately show ?thesis using False by (simp add: Math_round_def k_def)
qed

lemma exact_percentage_floor:
  assumes "0 < t"
  shows "int (exact_percentage c t) = \<lfloor>100 * real c / real t + 1 / 2\<rfloor>"
proof -
  have "100 * real c / real t + 1 / 2 = of_int (int (200 * c + t)) / of_int (int (2 * t))"
    using assms by (simp add: field_simps)
  then have "\<lfloor>100 * real c / real t + 1 / 2\<rfloor> = int (200 * c + t) div int (2 * t)"
    by (simp only: floor_divide_of_int_eq)
  then show ?thesis by (simp add: exact_percentage_def zdiv_int)
qed


lemma percentage_of_error:
  assumes "0 < c" and "c \<le> t"
  shows "\<exists>z. int (percentage_of c t) = \<lfloor>z + 1 / 2\<rfloor>
           \<and> \<bar>z - 100 * real c / real t\<bar> \<le> 201 / 2 ^ 53"
proof -
  define x :: real where "x = real c / real t"
  have t: "0 < t" using assms by simp
  have x01: "0 < x" "x \<le> 1" using assms t by (simp_all add: x_def)
  obtain m1 e1 where q: "round53 (int c) (int t) 0 = (m1, e1)" "0 < m1"
      "\<bar>val (m1, e1) - of_int (int c) / of_int (int t) * 2 powi 0\<bar>
         \<le> of_int (int c) / of_int (int t) * 2 powi 0 / 2 ^ 53"
    using round53_err [of "int c" "int t" 0] assms t by auto
  define y where "y = val (m1, e1)"
  have y: "\<bar>y - x\<bar> \<le> x / 2 ^ 53"
    using q(3) by (simp add: y_def x_def)
  obtain m2 e2 where p: "round53 (m1 * 100) 1 e1 = (m2, e2)" "0 < m2"
      "\<bar>val (m2, e2) - of_int (m1 * 100) / of_int 1 * 2 powi e1\<bar>
         \<le> of_int (m1 * 100) / of_int 1 * 2 powi e1 / 2 ^ 53"
    using round53_err [of "m1 * 100" 1 e1] q(2) by auto
  define z where "z = val (m2, e2)"
  have prod: "(of_int (m1 * 100) :: real) / of_int 1 * 2 powi e1 = 100 * y"
    by (simp add: y_def val_def)
  have z: "\<bar>z - 100 * y\<bar> \<le> 100 * y / 2 ^ 53"
    using p(3) unfolding prod by (simp add: z_def)
  have run: "percentage_of c t = Math_round (m2, e2)"
    by (simp add: percentage_of_def fdiv_def fmul100_def q(1) p(1))
  have fl: "int (percentage_of c t) = \<lfloor>z + 1 / 2\<rfloor>"
    unfolding run z_def using p(2) by (intro Math_round_floor) simp
  define u :: real where "u = 1 / 2 ^ 53"
  have u: "0 < u" "u \<le> 1 / 100" by (simp_all add: u_def)
  have y': "\<bar>y - x\<bar> \<le> x * u" using y by (simp add: u_def)
  have z': "\<bar>z - 100 * y\<bar> \<le> 100 * y * u" using z by (simp add: u_def)
  have "y \<le> x + x * u" using y' by linarith
  then have "100 * y * u \<le> 100 * (x + x * u) * u"
    using u(1) by (intro mult_right_mono mult_left_mono) simp_all
  also have "\<dots> = 100 * x * u + 100 * x * u * u" by (simp add: algebra_simps)
  finally have "100 * y * u \<le> 100 * x * u + 100 * x * u * u" .
  moreover have "100 * x * u * u \<le> u"
  proof -
    have "x * (100 * u) \<le> 1 * 1"
      using x01 u by (intro mult_mono) simp_all
    then have "(x * (100 * u)) * u \<le> 1 * u"
      using u(1) by (intro mult_right_mono) simp_all
    then show ?thesis by (simp add: algebra_simps)
  qed
  ultimately have zb: "100 * y * u \<le> 100 * x * u + u" by linarith
  have "100 * x * u \<le> 100 * 1 * u"
    using x01 u(1) by (intro mult_mono) simp_all
  then have xb: "100 * x * u \<le> 100 * u" by simp
  have y2: "y - x \<le> x * u" "- (x * u) \<le> y - x"
    using y' by (simp_all add: abs_le_iff)
  have z2: "z - 100 * y \<le> 100 * y * u" "- (100 * y * u) \<le> z - 100 * y"
    using z' by (simp_all add: abs_le_iff)
  have "z - 100 * x \<le> 201 * u" "- (201 * u) \<le> z - 100 * x"
    using y2 z2 zb xb by linarith+
  then have "\<bar>z - 100 * x\<bar> \<le> 201 * u"
    by (simp add: abs_le_iff)
  then have "\<bar>z - 100 * real c / real t\<bar> \<le> 201 / 2 ^ 53"
    by (simp add: x_def u_def)
  with fl show ?thesis by blast
qed


text \<open>Off the ties the handler's percentage is the exact quotient rounded to the
  nearest integer; at a tie it is that or one less.\<close>

lemma percentage_of_near_exact:
  assumes "0 < t" and "c \<le> t" and "t < 2 ^ 32"
  shows "((200 * c + t) mod (2 * t) \<noteq> 0 \<longrightarrow> percentage_of c t = exact_percentage c t)
         \<and> exact_percentage c t \<le> percentage_of c t + 1
         \<and> percentage_of c t \<le> exact_percentage c t"
proof (cases "c = 0")
  case True
  with assms(1) show ?thesis by (simp add: exact_percentage_def)
next
  case False
  then have c: "0 < c" by simp
  obtain z where z: "int (percentage_of c t) = \<lfloor>z + 1 / 2\<rfloor>"
      "\<bar>z - 100 * real c / real t\<bar> \<le> 201 / 2 ^ 53"
    using percentage_of_error [OF c assms(2)] by blast
  define N where "N = int (200 * c + t)"
  define D where "D = int (2 * t)"
  define k where "k = N div D"
  define r where "r = N mod D"
  have D: "0 < D" "D < 2 ^ 33" using assms(1,3) by (simp_all add: D_def)
  have r: "0 \<le> r" "r < D" using D(1) by (simp_all add: r_def)
  have N: "N = k * D + r" by (simp add: k_def r_def)
  have ex: "int (exact_percentage c t) = k"
    by (simp add: exact_percentage_def k_def N_def D_def zdiv_int)
  have mid: "100 * real c / real t + 1 / 2 = of_int k + of_int r / of_int D"
  proof -
    have "100 * real c / real t + 1 / 2 = of_int N / of_int D"
      using assms(1) by (simp add: N_def D_def field_simps)
    also have "\<dots> = of_int k + of_int r / of_int D"
      using D(1) by (simp add: N field_simps)
    finally show ?thesis .
  qed
  define delta :: real where "delta = 201 / 2 ^ 53"
  have Dr: "(0 :: real) < of_int D" "(of_int D :: real) < 2 ^ 33"
    using D by (simp_all only: of_int_0_less_iff) (metis of_int_less_iff of_int_numeral of_int_power)
  have small: "delta < 1 / of_int D"
  proof -
    have "delta < 1 / 2 ^ 33" by (simp add: delta_def)
    also have "\<dots> < 1 / of_int D"
      using Dr by (simp add: field_simps)
    finally show ?thesis .
  qed
  have delta1: "delta < 1" by (simp add: delta_def)
  define X :: real where "X = 100 * real c / real t"
  have zd: "\<bar>z - X\<bar> \<le> delta" using z(2) by (simp only: delta_def X_def)
  have zd2: "z - X \<le> delta" "- delta \<le> z - X"
    using zd by (simp_all only: abs_le_iff) linarith+
  have mid': "X + 1 / 2 = of_int k + of_int r / of_int D"
    using mid by (simp only: X_def)
  have zz: "z + 1 / 2 \<le> of_int k + of_int r / of_int D + delta"
      "of_int k + of_int r / of_int D - delta \<le> z + 1 / 2"
    using zd2 mid' by linarith+
  have r0: "(0 :: real) \<le> of_int r / of_int D" using r D(1) by simp
  have r1: "(of_int r :: real) / of_int D \<le> 1 - 1 / of_int D"
  proof -
    have "r \<le> D - 1" using r(2) by simp
    then have "(of_int r :: real) \<le> of_int D - 1" by (metis of_int_1 of_int_diff of_int_le_iff)
    then show ?thesis using Dr(1) by (simp add: field_simps)
  qed
  have upper: "z + 1 / 2 < of_int k + 1"
  proof (cases "r = 0")
    case True
    with zz(1) delta1 show ?thesis by simp
  next
    case False
    with zz(1) r1 small show ?thesis by linarith
  qed
  have lower: "of_int k - 1 < z + 1 / 2"
    using zz(2) r0 delta1 by linarith
  have le: "\<lfloor>z + 1 / 2\<rfloor> \<le> k" using upper by (simp add: floor_le_iff)
  have ge: "k - 1 \<le> \<lfloor>z + 1 / 2\<rfloor>" using lower by (simp add: le_floor_iff)
  have eq: "\<lfloor>z + 1 / 2\<rfloor> = k" if "r \<noteq> 0"
  proof -
    have "1 \<le> r" using that r(1) by simp
    then have "(1 :: real) \<le> of_int r" by (metis of_int_1 of_int_le_iff)
    then have "1 / of_int D \<le> (of_int r :: real) / of_int D"
      using Dr(1) by (simp add: field_simps)
    with zz(2) small have "of_int k < z + 1 / 2" by linarith
    with upper show ?thesis by (intro floor_unique) simp_all
  qed
  have tie: "r \<noteq> 0" if "(200 * c + t) mod (2 * t) \<noteq> 0"
  proof -
    have "r = int ((200 * c + t) mod (2 * t))"
      by (simp add: r_def N_def D_def zmod_int)
    with that show ?thesis by simp
  qed
  show ?thesis
    using z(1) ex le ge eq tie by (auto simp: )
qed


subsection \<open>C3: an entry for every legal key, and the percentage\<close>

lemma room_open [simp]: "\<not> isRoomExpired (now sample_env) (r_expires_at sample_room)"
  by (simp add: isRoomExpired_def sample_room_def)


lemma forty_fetched:
  "select_votes sample_env (sample_world binary_poll forty_ballots) poll_uuid
     = Some (map (\<lambda>i. (''yes'', int i)) [0..<23] @ map (\<lambda>i. (''no'', int i)) [23..<40])"
  by (simp add: select_votes_def forty_ballots_def comp_def)

text \<open>
  Claim C3 says that each percentage equals \<open>round(count / total_votes * 100)\<close>. With
  23 of 40 votes the quotient is 57.5, which rounds to 58. The handler computes
  \<^verbatim>\<open>(23 / 40) * 100\<close> in binary64: the division rounds to the double just below
  0.575, the product to 57.49999999999999, and \<^verbatim>\<open>Math.round\<close> gives 57.
\<close>

theorem percentage_of_23_of_40_votes:
  "on_success total_votes
      (fst (getResults sample_env (sample_world binary_poll forty_ballots) poll_uuid)) = Some 40
   \<and> map_option count
        (entry_of (fst (getResults sample_env (sample_world binary_poll forty_ballots) poll_uuid))
           ''yes'') = Some 23
   \<and> map_option percentage
        (entry_of (fst (getResults sample_env (sample_world binary_poll forty_ballots) poll_uuid))
           ''yes'') = Some 57
   \<and> exact_percentage 23 40 = 58"
proof -
  let ?w = "sample_world binary_poll forty_ballots"
  let ?fetched = "map (\<lambda>i. (''yes'', int i)) [0..<23] @ map (\<lambda>i. (''no'', int i)) [23..<40]"
  have sel: "select_poll sample_env ?w poll_uuid = Data (binary_poll, sample_room)" by simp
  have keys: "bucket_keys binary_poll = Some [''yes'', ''no'']" by simp
  have safe: "''hasOwnProperty'' \<notin> set [''yes'', ''no''] \<or> ?fetched = []"
    by simp
  have k: "''yes'' \<in> set [''yes'', ''no''] \<and> ''yes'' \<noteq> ''__proto__''"
    by simp
  have n: "votes_for ''yes'' ?fetched = 23" "length ?fetched = 40"
    by (simp_all add: votes_for_def comp_def)
  have p: "percentage_of 23 40 = 57"
    by (simp add: percentage_of_def fdiv_def fmul100_def round53_def scale_up.simps
          scale_down.simps half_even_def Math_round_def)
  have ne: "?fetched \<noteq> []" by simp
  from results_entry [OF uuid_poll sel room_open forty_fetched keys safe] k
  obtain r lbl where run: "GET_results sample_env poll_uuid ?w
        = (Success 200 r, logged (SelectVotes poll_uuid) (logged (SelectPoll poll_uuid) ?w))"
    and tot: "total_votes r = length ?fetched"
    and ent: "map_of (results r) ''yes''
         = Some \<lparr>label = lbl, count = votes_for ''yes'' ?fetched,
                 percentage = (if ?fetched = [] then 0
                    else percentage_of (votes_for ''yes'' ?fetched) (length ?fetched))\<rparr>"
    by blast
  have tot': "total_votes r = 40" using tot unfolding n .
  have ent': "map_of (results r) ''yes'' = Some \<lparr>label = lbl, count = 23, percentage = 57\<rparr>"
    using ent ne unfolding n p by (simp only: if_False)
  have "exact_percentage 23 40 = 58" by (simp add: exact_percentage_def)
  with run tot' ent' show ?thesis
    by (simp add: getResults_def on_success_def entry_of_def)
qed

text \<open>
  Claim C3, amended. For a binary poll, a numeric-range poll with readable bounds
  (integers different from 0 and below \<open>2^53\<close> in magnitude), or an enumerated-choice
  poll, and for every set of fetched votes (the poll is found, its room is unexpired,
  the fetch succeeds, and no legal key is named \<open>hasOwnProperty\<close> unless there are no
  votes), \<open>getResults\<close> returns a result set, and for every key of the legal choice set
  of the spec other than \<open>__proto__\<close>: the result set has an entry for the key, its
  count is the number of fetched votes with that choice, and its percentage is 0 when
  there are no votes and otherwise
  \<^verbatim>\<open>Math.round((count / total_votes) * 100)\<close> evaluated in double-precision
  floating-point arithmetic; a key without votes has count 0 and percentage 0, and the
  total is the number of fetched votes. For fewer than \<open>2^32\<close> votes that percentage is
  the exact quotient \<open>100 * count / total_votes\<close> rounded to the nearest integer
  whenever the quotient is not halfway between two integers; at such a tie it is the
  quotient rounded up or one less.
\<close>

theorem results_cover_every_legal_key:
  assumes "uuidRegex_test pollId" and "select_poll e w pollId = Data (poll, room)"
    and "\<not> isRoomExpired (now e) (r_expires_at room)"
    and "select_votes e w pollId = Some fetched"
    and "describes d poll" and "readable d"
    and "''hasOwnProperty'' \<notin> set (legal_choices d) \<or> fetched = []"
    and "k \<in> set (legal_choices d)" and "k \<noteq> ''__proto__''"
  shows "on_success total_votes (fst (getResults e w pollId)) = Some (length fetched)
     \<and> map_option count (entry_of (fst (getResults e w pollId)) k)
         = Some (votes_for k fetched)
     \<and> map_option percentage (entry_of (fst (getResults e w pollId)) k)
         = Some (if fetched = [] then 0
                 else percentage_of (votes_for k fetched) (length fetched))
     \<and> (votes_for k fetched = 0 \<longrightarrow>
           map_option percentage (entry_of (fst (getResults e w pollId)) k) = Some 0)
     \<and> (fetched \<noteq> [] \<and> length fetched < 2 ^ 32
           \<and> (200 * votes_for k fetched + length fetched) mod (2 * length fetched) \<noteq> 0 \<longrightarrow>
           map_option percentage (entry_of (fst (getResults e w pollId)) k)
             = Some (exact_percentage (votes_for k fetched) (length fetched)))
     \<and> (fetched \<noteq> [] \<and> length fetched < 2 ^ 32 \<longrightarrow>
           percentage_of (votes_for k fetched) (length fetched)
             \<le> exact_percentage (votes_for k fetched) (length fetched)
           \<and> exact_percentage (votes_for k fetched) (length fetched)
             \<le> percentage_of (votes_for k fetched) (length fetched) + 1)"
proof -
  have le: "votes_for k fetched \<le> length fetched"
    by (simp add: votes_for_def)
  have near: "((200 * votes_for k fetched + length fetched) mod (2 * length fetched) \<noteq> 0
                \<longrightarrow> percentage_of (votes_for k fetched) (length fetched)
                      = exact_percentage (votes_for k fetched) (length fetched))
         \<and> exact_percentage (votes_for k fetched) (length fetched)
               \<le> percentage_of (votes_for k fetched) (length fetched) + 1
         \<and> percentage_of (votes_for k fetched) (length fetched)
               \<le> exact_percentage (votes_for k fetched) (length fetched)"
    if "fetched \<noteq> []" "length fetched < 2 ^ 32"
    using percentage_of_near_exact [OF _ le that(2)] that(1) by simp
  have keys: "bucket_keys poll = Some (legal_choices d)"
    using validChoices_legal [OF assms(5,6)] by (simp add: bucket_keys_validChoices)
  have k: "k \<in> set (legal_choices d) \<and> k \<noteq> ''__proto__''"
    using assms(8,9) by simp
  from results_entry [OF assms(1-4) keys assms(7)] k
  obtain r lbl where r: "GET_results e pollId w
        = (Success 200 r, logged (SelectVotes pollId) (logged (SelectPoll pollId) w))"
      "total_votes r = length fetched"
      "map_of (results r) k
         = Some \<lparr>label = lbl, count = votes_for k fetched,
                 percentage = (if fetched = [] then 0
                    else percentage_of (votes_for k fetched) (length fetched))\<rparr>"
    by blast
  then show ?thesis
    using near by (simp add: getResults_def on_success_def entry_of_def)
qed

theorem results_cover_every_legal_key_witness:
  "uuidRegex_test poll_uuid
   \<and> select_poll sample_env
         (sample_world (rating_poll 1 5) [ballot 0 ''4'', ballot 1 ''5'', ballot 2 ''5'']) poll_uuid
       = Data (rating_poll 1 5, sample_room)
   \<and> \<not> isRoomExpired (now sample_env) (r_expires_at sample_room)
   \<and> select_votes sample_env
         (sample_world (rating_poll 1 5) [ballot 0 ''4'', ballot 1 ''5'', ballot 2 ''5'']) poll_uuid
       = Some [(''4'', 0), (''5'', 1), (''5'', 2)]
   \<and> describes (NumericRange 1 5) (rating_poll 1 5) \<and> readable (NumericRange 1 5)
   \<and> legal_choices (NumericRange 1 5) = [''1'', ''2'', ''3'', ''4'', ''5'']
   \<and> on_success total_votes
        (fst (getResults sample_env
                (sample_world (rating_poll 1 5) [ballot 0 ''4'', ballot 1 ''5'', ballot 2 ''5''])
                poll_uuid)) = Some 3
   \<and> map_option count
        (entry_of (fst (getResults sample_env
                (sample_world (rating_poll 1 5) [ballot 0 ''4'', ballot 1 ''5'', ballot 2 ''5''])
                poll_uuid)) ''5'') = Some 2
   \<and> map_option percentage
        (entry_of (fst (getResults sample_env
                (sample_world (rating_poll 1 5) [ballot 0 ''4'', ballot 1 ''5'', ballot 2 ''5''])
                poll_uuid)) ''5'') = Some 67
   \<and> exact_percentage 2 3 = 67
   \<and> map_option count
        (entry_of (fst (getResults sample_env
                (sample_world (rating_poll 1 5) [ballot 0 ''4'', ballot 1 ''5'', ballot 2 ''5''])
                poll_uuid)) ''1'') = Some 0
   \<and> map_option percentage
        (entry_of (fst (getResults sample_env
                (sample_world (rating_poll 1 5) [ballot 0 ''4'', ballot 1 ''5'', ballot 2 ''5''])
                poll_uuid)) ''1'') = Some 0"
proof -
  let ?w = "sample_world (rating_poll 1 5) [ballot 0 ''4'', ballot 1 ''5'', ballot 2 ''5'']"
  let ?fetched = "[(''4'', 0), (''5'', 1), (''5'', 2)] :: (string \<times> int) list"
  have sel: "select_poll sample_env ?w poll_uuid = Data (rating_poll 1 5, sample_room)" by simp
  have vs: "select_votes sample_env ?w poll_uuid = Some ?fetched"
    by (simp add: select_votes_def)
  have safe: "''hasOwnProperty'' \<notin> set (legal_choices (NumericRange 1 5)) \<or> ?fetched = []"
    by (simp add: legal_1_5)
  have k5: "''5'' \<in> set (legal_choices (NumericRange 1 5))" "''5'' \<noteq> ''__proto__''"
    and k1: "''1'' \<in> set (legal_choices (NumericRange 1 5))" "''1'' \<noteq> ''__proto__''"
    by (simp_all add: legal_1_5)
  have n: "votes_for ''5'' ?fetched = 2" "votes_for ''1'' ?fetched = 0"
    by (simp_all add: votes_for_def)
  have len: "length ?fetched = 3" by simp
  have ex: "exact_percentage 2 3 = 67" by (simp add: exact_percentage_def)
  note five = results_cover_every_legal_key [OF uuid_poll sel room_open vs rating_1_5 safe k5]
  note one = results_cover_every_legal_key [OF uuid_poll sel room_open vs rating_1_5 safe k1]
  have tot: "on_success total_votes (fst (getResults sample_env ?w poll_uuid)) = Some 3"
    using five unfolding len by (rule conjunct1)
  have c5: "map_option count (entry_of (fst (getResults sample_env ?w poll_uuid)) ''5'') = Some 2"
    using five unfolding n by (elim conjE)
  have c1: "map_option count (entry_of (fst (getResults sample_env ?w poll_uuid)) ''1'') = Some 0"
    using one unfolding n by (elim conjE)
  have off_tie: "?fetched \<noteq> [] \<and> length ?fetched < 2 ^ 32
      \<and> (200 * votes_for ''5'' ?fetched + length ?fetched) mod (2 * length ?fetched) \<noteq> 0"
    unfolding n len by simp
  have "map_option percentage (entry_of (fst (getResults sample_env ?w poll_uuid)) ''5'')
          = Some (exact_percentage (votes_for ''5'' ?fetched) (length ?fetched))"
    using five off_tie by blast
  then have p5: "map_option percentage
      (entry_of (fst (getResults sample_env ?w poll_uuid)) ''5'') = Some 67"
    unfolding n len ex .
  have p1: "map_option percentage
      (entry_of (fst (getResults sample_env ?w poll_uuid)) ''1'') = Some 0"
    using one n(2) by blast
  show ?thesis
    using sel vs rating_1_5 legal_1_5 room_open uuid_poll tot c5 p5 ex c1 p1 by (intro conjI)
qed

text \<open>
  The two restrictions on the bounds are needed. A bound of 0 is read as missing, so
  for \<open>min = 0\<close> and \<open>max = 3\<close> the legal key \<open>0\<close> has no entry; and with the upper bound
  \<open>2^53\<close> the loop that initialises the counts never ends, so the request stays
  unanswered.
\<close>

lemma zero_bound_key_has_no_entry:
  "''0'' \<in> set (legal_choices (NumericRange 0 3))
   \<and> on_success total_votes
        (fst (getResults sample_env (sample_world (rating_poll 0 3) []) poll_uuid)) = Some 0
   \<and> map_option count
        (entry_of (fst (getResults sample_env (sample_world (rating_poll 0 3) []) poll_uuid))
           ''1'') = Some 0
   \<and> entry_of (fst (getResults sample_env (sample_world (rating_poll 0 3) []) poll_uuid)) ''0''
       = None"
proof -
  let ?w = "sample_world (rating_poll 0 3) []"
  have sel: "select_poll sample_env ?w poll_uuid = Data (rating_poll 0 3, sample_room)" by simp
  have vs: "select_votes sample_env ?w poll_uuid = Some []"
    by (simp add: select_votes_def)
  have keys: "bucket_keys (rating_poll 0 3) = Some [''1'', ''2'', ''3'']"
    by (simp add: bucket_keys_validChoices rating_0_3_keys)
  have safe: "''hasOwnProperty'' \<notin> set [''1'', ''2'', ''3''] \<or> ([]::(string \<times> int) list) = []"
    by simp
  have k: "''1'' \<in> set [''1'', ''2'', ''3''] \<and> ''1'' \<noteq> ''__proto__''" by simp
  from results_entry [OF uuid_poll sel room_open vs keys safe] k
  obtain r lbl where r: "GET_results sample_env poll_uuid ?w
        = (Success 200 r, logged (SelectVotes poll_uuid) (logged (SelectPoll poll_uuid) ?w))"
      "total_votes r = length ([]::(string \<times> int) list)"
      "fst ` set (results r) = set [''1'', ''2'', ''3''] - {''__proto__''}"
      "map_of (results r) ''1'' = Some \<lparr>label = lbl, count = votes_for ''1'' [], percentage = 0\<rparr>"
    by auto
  have "''0'' \<notin> fst ` set (results r)" using r(3) by simp
  then have none: "map_of (results r) ''0'' = None" by (simp add: map_of_eq_None_iff)
  with r(1,2,4) show ?thesis
    by (simp add: getResults_def on_success_def entry_of_def legal_choices_def small_keys
          upto_rec1 votes_for_def)
qed

lemma results_of_endless_poll_unanswered:
  "bucket_keys endless_poll = None
   \<and> getResults sample_env (sample_world endless_poll []) poll_uuid
       = (Unanswered,
          logged (SelectVotes poll_uuid) (logged (SelectPoll poll_uuid)
            (sample_world endless_poll [])))"
proof -
  let ?w = "sample_world endless_poll []"
  have sel: "select_poll sample_env ?w poll_uuid = Data (endless_poll, sample_room)" by simp
  have vs: "select_votes sample_env ?w poll_uuid = Some []"
    by (simp add: select_votes_def)
  have keys: "bucket_keys endless_poll = None"
    by (simp add: bucket_keys_validChoices endless_poll_keys)
  show ?thesis
    using GET_results_endless [OF uuid_poll sel room_open vs keys] keys
    by (simp add: getResults_def)
qed

subsection \<open>C10: the total counts every fetched row\<close>

lemma sum_votes_for:
  "finite K \<Longrightarrow> (\<Sum>k\<in>K. votes_for k fetched) = length (filter (\<lambda>vote. fst vote \<in> K) fetched)"
proof (induction fetched)
  case Nil
  then show ?case by (simp add: votes_for_def)
next
  case (Cons vote rest)
  have "(\<Sum>k\<in>K. votes_for k (vote # rest))
          = (\<Sum>k\<in>K. (if fst vote = k then 1 else 0) + votes_for k rest)"
    by (intro sum.cong) (simp_all add: votes_for_def)
  also have "\<dots> = (\<Sum>k\<in>K. if fst vote = k then 1 else 0) + (\<Sum>k\<in>K. votes_for k rest)"
    by (simp add: sum.distrib)
  also have "(\<Sum>k\<in>K. if fst vote = k then 1 else 0) = (if fst vote \<in> K then 1 else (0::nat))"
    using Cons.prems by simp
  finally show ?case using Cons by simp
qed

lemma sum_counts_by_key:
  assumes "distinct (map fst res)"
    and "\<forall>k\<in>fst ` set res. map_option count (map_of res k) = Some (h k)"
  shows "sum_counts res = (\<Sum>k\<in>fst ` set res. h k)"
proof -
  have "\<forall>ke\<in>set res. count (snd ke) = h (fst ke)"
  proof
    fix ke assume "ke \<in> set res"
    then have "map_of res (fst ke) = Some (snd ke)"
      using map_of_is_SomeI [OF assms(1), of "fst ke" "snd ke"] by simp
    moreover have "map_option count (map_of res (fst ke)) = Some (h (fst ke))"
      using assms(2) \<open>ke \<in> set res\<close> by blast
    ultimately show "count (snd ke) = h (fst ke)" by simp
  qed
  then have "sum_counts res = sum_list (map h (map fst res))"
    by (simp add: sum_counts_def comp_def cong: map_cong)
  also have "\<dots> = (\<Sum>k\<in>set (map fst res). h k)"
    using assms(1) by (rule sum_list_distinct_conv_sum_set)
  finally show ?thesis by simp
qed

text \<open>
  Claim C10, amended. Whenever \<open>getResults\<close> returns a result set (the poll is found,
  its room is unexpired, the fetch succeeds, the loop that initialises the buckets ends
  and none of them is named \<open>hasOwnProperty\<close>) for fetched votes of which at least one
  has a choice outside the initialised bucket map: \<open>total_votes\<close> is the number of all
  fetched rows, the sum of the per-choice counts is strictly less than \<open>total_votes\<close>,
  and every reported percentage is computed from its count with that larger total as
  the denominator. (The percentages are rounded one by one, so their sum is not bounded
  by this: it can still reach 100.)
\<close>

theorem total_counts_every_fetched_row:
  assumes "uuidRegex_test pollId" and "select_poll e w pollId = Data (poll, room)"
    and "\<not> isRoomExpired (now e) (r_expires_at room)"
    and "select_votes e w pollId = Some fetched"
    and "bucket_keys poll = Some ks"
    and "''hasOwnProperty'' \<notin> set ks"
    and "list_ex (\<lambda>vote. \<not> hasOwnProperty (init_zero ks) (fst vote)) fetched"
  shows "on_success total_votes (fst (getResults e w pollId)) = Some (length fetched)
     \<and> on_success (\<lambda>r. sum_counts (results r) < total_votes r) (fst (getResults e w pollId))
         = Some True
     \<and> on_success (\<lambda>r. list_all (\<lambda>ke. percentage (snd ke)
                                       = percentage_of (count (snd ke)) (total_votes r))
                           (results r))
         (fst (getResults e w pollId)) = Some True"
proof -
  let ?K = "set ks - {''__proto__''}"
  have safe: "''hasOwnProperty'' \<notin> set ks \<or> fetched = []"
    using assms(6) by simp
  from results_entry [OF assms(1-5) safe]
  obtain r where run: "GET_results e pollId w
        = (Success 200 r, logged (SelectVotes pollId) (logged (SelectPoll pollId) w))"
    and tot: "total_votes r = length fetched"
    and keys: "fst ` set (results r) = ?K"
    and dist: "distinct (map fst (results r))"
    and ent: "\<forall>k. k \<in> set ks \<and> k \<noteq> ''__proto__'' \<longrightarrow>
                 (\<exists>lbl. map_of (results r) k
                    = Some \<lparr>label = lbl, count = votes_for k fetched,
                            percentage = (if fetched = [] then 0
                               else percentage_of (votes_for k fetched) (length fetched))\<rparr>)"
    by blast
  obtain vote where v: "vote \<in> set fetched"
      "\<not> hasOwnProperty (init_zero ks) (fst vote)"
    using assms(7) by (auto simp: list_ex_iff)
  then have ne: "fetched \<noteq> []" by auto
  have "\<forall>k\<in>fst ` set (results r). map_option count (map_of (results r) k)
           = Some (votes_for k fetched)"
    using ent keys by auto
  then have "sum_counts (results r) = (\<Sum>k\<in>?K. votes_for k fetched)"
    using sum_counts_by_key [OF dist] keys by simp
  also have "\<dots> = length (filter (\<lambda>vote. fst vote \<in> ?K) fetched)"
    by (rule sum_votes_for) simp
  also have "\<dots> < length fetched"
    using v by (intro length_filter_less [of vote]) (auto simp: hasOwnProperty_init_zero)
  finally have less: "sum_counts (results r) < total_votes r" by (simp add: tot)
  have pct: "list_all (\<lambda>ke. percentage (snd ke) = percentage_of (count (snd ke)) (total_votes r))
               (results r)"
    unfolding list_all_iff
  proof
    fix ke assume in_res: "ke \<in> set (results r)"
    then have "fst ke \<in> ?K" using keys by (metis imageI)
    then obtain lbl where "map_of (results r) (fst ke)
        = Some \<lparr>label = lbl, count = votes_for (fst ke) fetched,
                percentage = percentage_of (votes_for (fst ke) fetched) (length fetched)\<rparr>"
      using ent ne by auto
    moreover have "map_of (results r) (fst ke) = Some (snd ke)"
      using map_of_is_SomeI [OF dist, of "fst ke" "snd ke"] in_res by simp
    ultimately show "percentage (snd ke) = percentage_of (count (snd ke)) (total_votes r)"
      by (auto simp: tot)
  qed
  show ?thesis
    using run tot less pct by (simp add: getResults_def on_success_def)
qed



theorem total_counts_every_fetched_row_witness:
  "uuidRegex_test poll_uuid
   \<and> select_poll sample_env (sample_world binary_poll [ballot 0 ''yes'', ballot 1 ''maybe''])
         poll_uuid = Data (binary_poll, sample_room)
   \<and> \<not> isRoomExpired (now sample_env) (r_expires_at sample_room)
   \<and> select_votes sample_env (sample_world binary_poll [ballot 0 ''yes'', ballot 1 ''maybe''])
         poll_uuid = Some [(''yes'', 0), (''maybe'', 1)]
   \<and> bucket_keys binary_poll = Some [''yes'', ''no'']
   \<and> ''hasOwnProperty'' \<notin> set [''yes'', ''no'']
   \<and> list_ex (\<lambda>vote. \<not> hasOwnProperty (init_zero [''yes'', ''no'']) (fst vote))
        [(''yes'', 0), (''maybe'', 1)]
   \<and> on_success total_votes
        (fst (getResults sample_env
                (sample_world binary_poll [ballot 0 ''yes'', ballot 1 ''maybe'']) poll_uuid))
       = Some 2
   \<and> on_success (\<lambda>r. sum_counts (results r) < total_votes r)
        (fst (getResults sample_env
                (sample_world binary_poll [ballot 0 ''yes'', ballot 1 ''maybe'']) poll_uuid))
       = Some True"
proof -
  let ?w = "sample_world binary_poll [ballot 0 ''yes'', ballot 1 ''maybe'']"
  have sel: "select_poll sample_env ?w poll_uuid = Data (binary_poll, sample_room)" by simp
  have vs: "select_votes sample_env ?w poll_uuid = Some [(''yes'', 0), (''maybe'', 1)]"
    by (simp add: select_votes_def)
  have keys: "bucket_keys binary_poll = Some [''yes'', ''no'']" by simp
  have safe: "''hasOwnProperty'' \<notin> set [''yes'', ''no'']" by simp
  have stray: "list_ex (\<lambda>vote. \<not> hasOwnProperty (init_zero [''yes'', ''no'']) (fst vote))
                 [(''yes'', 0), (''maybe'', 1)]"
    by (simp add: hasOwnProperty_init_zero)
  show ?thesis
    using total_counts_every_fetched_row [OF uuid_poll sel room_open vs keys safe stray]
      sel vs keys safe stray room_open
    by simp
qed

text \<open>The result set of a binary poll, entry by entry.\<close>

lemma binary_results:
  assumes "uuidRegex_test pid" and "select_poll e w pid = Data (poll, room)"
    and "\<not> isRoomExpired (now e) (r_expires_at room)"
    and "select_votes e w pid = Some fetched"
    and "p_poll_type poll = ''yes_no''"
  shows "on_success results (fst (GET_results e pid w))
           = Some [(''yes'', \<lparr>label = or_label (map_of (p_options poll) ''yes'') ''Yes'',
                              count = votes_for ''yes'' fetched,
                              percentage = (if fetched = [] then 0
                                 else percentage_of (votes_for ''yes'' fetched) (length fetched))\<rparr>),
                   (''no'', \<lparr>label = or_label (map_of (p_options poll) ''no'') ''No'',
                             count = votes_for ''no'' fetched,
                             percentage = (if fetched = [] then 0
                                else percentage_of (votes_for ''no'' fetched) (length fetched))\<rparr>)]
         \<and> on_success total_votes (fst (GET_results e pid w)) = Some (length fetched)"
proof -
  have keys: "bucket_keys poll = Some [''yes'', ''no'']"
    using assms(5) by simp
  have safe: "''hasOwnProperty'' \<notin> set [''yes'', ''no''] \<or> fetched = []"
    by simp
  obtain tally where t: "count_votes (init_zero [''yes'', ''no'']) fetched = Some tally"
      "fst ` set tally = set [''yes'', ''no''] - {''__proto__''}"
      "\<forall>k. k \<in> set [''yes'', ''no''] \<and> k \<noteq> ''__proto__''
            \<longrightarrow> map_of tally k = Some (votes_for k fetched)"
    using tally_of_bucket [OF safe] by blast
  have ty: "map_of tally ''yes'' = Some (votes_for ''yes'' fetched)"
    and tn: "map_of tally ''no'' = Some (votes_for ''no'' fetched)"
    using t(3) by simp_all
  have dom: "''yes'' \<in> fst ` set tally" "''no'' \<in> fst ` set tally"
    using t(2) by simp_all
  let ?vp = "calc_percentages tally (init_zero [''yes'', ''no'']) (length fetched)"
  have fr: "format_results poll tally ?vp
      = Some [(''yes'', \<lparr>label = or_label (map_of (p_options poll) ''yes'') ''Yes'',
                         count = or_zero (map_of tally ''yes''),
                         percentage = or_zero (map_of ?vp ''yes'')\<rparr>),
              (''no'', \<lparr>label = or_label (map_of (p_options poll) ''no'') ''No'',
                        count = or_zero (map_of tally ''no''),
                        percentage = or_zero (map_of ?vp ''no'')\<rparr>)]"
    using assms(5) by (simp add: format_results_def Let_def)
  show ?thesis
    unfolding GET_results_success [OF assms(1-4) keys t(1) fr]
    by (simp add: on_success_def map_of_calc_percentages map_of_init_zero ty tn dom or_zero_def)
qed

text \<open>
  Claim C10 concludes that, with an unrecognised vote among the fetched rows, the
  percentages of the legal choices sum to less than 100. With 255 votes for \<open>yes\<close> and
  one vote for a choice that the binary poll does not have, the counts sum to 255 of
  256, and the percentages are 100 for \<open>yes\<close> (99.609375 rounded) and 0 for \<open>no\<close>: they
  sum to 100.
\<close>

theorem landslide_percentages_sum_to_100:
  "on_success total_votes
      (fst (getResults sample_env (sample_world binary_poll landslide_ballots) poll_uuid))
     = Some 256
   \<and> validChoices binary_poll = Some [''yes'', ''no'']
   \<and> list_ex (\<lambda>v. v_choice v \<notin> set [''yes'', ''no'']) landslide_ballots
   \<and> on_success (sum_counts \<circ> results)
        (fst (getResults sample_env (sample_world binary_poll landslide_ballots) poll_uuid))
       = Some 255
   \<and> on_success (sum_percentages \<circ> results)
        (fst (getResults sample_env (sample_world binary_poll landslide_ballots) poll_uuid))
       = Some 100"
proof -
  let ?w = "sample_world binary_poll landslide_ballots"
  let ?fetched = "map (\<lambda>i. (''yes'', int i)) [0..<255] @ [(''maybe'', 255)]"
  have sel: "select_poll sample_env ?w poll_uuid = Data (binary_poll, sample_room)" by simp
  have vs: "select_votes sample_env ?w poll_uuid = Some ?fetched"
    by (simp add: select_votes_def landslide_ballots_def comp_def)
  have ty: "p_poll_type binary_poll = ''yes_no''" by simp
  have n: "votes_for ''yes'' ?fetched = 255" "votes_for ''no'' ?fetched = 0"
      "length ?fetched = 256" "?fetched \<noteq> []"
    by (simp_all add: votes_for_def comp_def)
  have p: "percentage_of 255 256 = 100"
    by (simp add: percentage_of_def fdiv_def fmul100_def round53_def scale_up.simps
          scale_down.simps half_even_def Math_round_def)
  have stray: "validChoices binary_poll = Some [''yes'', ''no'']
      \<and> list_ex (\<lambda>v. v_choice v \<notin> set [''yes'', ''no'']) landslide_ballots"
    by (simp add: landslide_ballots_def)
  from binary_results [OF uuid_poll sel room_open vs ty]
  have "on_success results (fst (GET_results sample_env poll_uuid ?w))
           = Some [(''yes'', \<lparr>label = or_label (map_of (p_options binary_poll) ''yes'') ''Yes'',
                              count = 255, percentage = 100\<rparr>),
                   (''no'', \<lparr>label = or_label (map_of (p_options binary_poll) ''no'') ''No'',
                             count = 0, percentage = 0\<rparr>)]"
    and "on_success total_votes (fst (GET_results sample_env poll_uuid ?w)) = Some 256"
    unfolding n(1-3) p by simp_all
  then show ?thesis
    using stray
    by (auto simp: getResults_def on_success_def sum_counts_def sum_percentages_def
             split: response.splits)
qed


subsection \<open>C6: the validator's choice set and the aggregator's buckets\<close>

lemma keyed_poll_fields [simp]:
  "p_id (keyed_poll opts) = poll_uuid" "p_room_id (keyed_poll opts) = room_uuid"
  "p_poll_type (keyed_poll opts) = ''multiple_choice''" "p_is_active (keyed_poll opts)"
  "p_options (keyed_poll opts) = opts"
  by (simp_all add: keyed_poll_def)

lemma keyed_poll_keys [simp]:
  "validChoices (keyed_poll opts) = Some (map fst opts)"
  "bucket_keys (keyed_poll opts) = Some (map fst opts)"
  by (simp_all add: validChoices_def bucket_keys_def Object_keys_def)

lemma select_votes_none [simp]:
  "\<not> votes_fetch_fails e \<Longrightarrow> select_votes e (sample_world poll []) pid = Some []"
  by (simp add: select_votes_def)




text \<open>
  The key \<open>__proto__\<close> is left out of the amended claim because the two handlers do
  differ on it: the validator finds it among \<^verbatim>\<open>Object.keys(options)\<close>, and the
  aggregator's assignment \<^verbatim>\<open>voteCounts["__proto__"] = 0\<close> creates no property.
\<close>

lemma proto_key_accepted_but_not_initialised:
  "validChoices proto_key_poll = Some [''__proto__'', ''a'']
   \<and> (\<forall>details. fst (submitVote sample_env (sample_world proto_key_poll []) poll_uuid
                         ''sess_A'' ''__proto__'')
                    \<noteq> Failure 400 ''Invalid choice'' details)
   \<and> bucket_keys proto_key_poll = Some [''__proto__'', ''a'']
   \<and> map_of (init_zero [''__proto__'', ''a'']) ''__proto__'' = None
   \<and> entry_of (fst (getResults sample_env (sample_world proto_key_poll []) poll_uuid))
        ''__proto__'' = None"
proof -
  let ?w = "sample_world proto_key_poll []"
  have sel: "select_poll sample_env ?w poll_uuid = Data (proto_key_poll, sample_room)"
    by (simp add: proto_key_poll_def)
  have act: "p_is_active proto_key_poll" by (simp add: proto_key_poll_def)
  have valid: "validChoices proto_key_poll = Some [''__proto__'', ''a'']"
    and keys: "bucket_keys proto_key_poll = Some [''__proto__'', ''a'']"
    by (simp_all add: proto_key_poll_def)
  have k: "''__proto__'' \<in> set [''__proto__'', ''a'']" by simp
  have ne: "''__proto__'' \<noteq> []" by simp
  have vs: "select_votes sample_env ?w poll_uuid = Some []" by simp
  have safe: "''hasOwnProperty'' \<notin> set [''__proto__'', ''a'']
                \<or> ([]::(string \<times> int) list) = []"
    by simp
  from results_entry [OF uuid_poll sel room_open vs keys safe]
  obtain r where "GET_results sample_env poll_uuid ?w
        = (Success 200 r, logged (SelectVotes poll_uuid) (logged (SelectPoll poll_uuid) ?w))"
      "fst ` set (results r) = set [''__proto__'', ''a''] - {''__proto__''}"
    by blast
  then have "entry_of (fst (getResults sample_env ?w poll_uuid)) ''__proto__'' = None"
    by (simp add: getResults_def entry_of_def map_of_eq_None_iff)
  with POST_vote_choice_check(2) [OF uuid_poll ne sel act room_open valid k, of "Some ''sess_A''"]
    valid keys
  show ?thesis by (simp add: submitVote_def map_of_init_zero)
qed

subsection \<open>C8: votes with an unrecognised choice\<close>

text \<open>On a poll none of whose option keys is \<open>hasOwnProperty\<close>, a fetched vote whose
  choice is not a bucket key changes no count.\<close>

lemma votes_for_stray:
  "fst vote \<noteq> k \<Longrightarrow> votes_for k (before @ vote # after) = votes_for k (before @ after)"
  by (simp add: votes_for_def)

lemma unrecognised_votes_are_ignored:
  assumes "uuidRegex_test pid" and "select_poll e w pid = Data (poll, room)"
    and "\<not> isRoomExpired (now e) (r_expires_at room)"
    and "select_votes e w pid = Some (before @ vote # after)"
    and "bucket_keys poll = Some ks"
    and "''hasOwnProperty'' \<notin> set ks"
    and "\<not> hasOwnProperty (init_zero ks) (fst vote)"
    and "k \<in> set ks" and "k \<noteq> ''__proto__''"
  shows "map_option count (entry_of (fst (GET_results e pid w)) k)
           = Some (votes_for k (before @ after))"
proof -
  have "fst vote \<noteq> k"
    using assms(7-9) by (auto simp: hasOwnProperty_init_zero)
  then have eq: "votes_for k (before @ vote # after) = votes_for k (before @ after)"
    by (rule votes_for_stray)
  have safe: "''hasOwnProperty'' \<notin> set ks \<or> before @ vote # after = []"
    using assms(6) by simp
  from results_entry [OF assms(1-5) safe] assms(8,9)
  obtain r lbl where "GET_results e pid w
        = (Success 200 r, logged (SelectVotes pid) (logged (SelectPoll pid) w))"
      "map_of (results r) k
         = Some \<lparr>label = lbl, count = votes_for k (before @ vote # after),
                 percentage = (if before @ vote # after = [] then 0
                    else percentage_of (votes_for k (before @ vote # after))
                           (length (before @ vote # after)))\<rparr>"
    by blast
  then show ?thesis by (simp add: entry_of_def eq)
qed

lemma shadowing_poll_fields [simp]:
  "p_id shadowing_poll = poll_uuid" "p_room_id shadowing_poll = room_uuid"
  "bucket_keys shadowing_poll = Some [''hasOwnProperty'', ''b'']"
  by (simp_all add: shadowing_poll_def)

text \<open>
  Claim C8 says that, for every set of fetched votes, a vote with an unrecognised
  choice is ignored and the result set is still returned. The handler guards the
  increment with \<^verbatim>\<open>voteCounts.hasOwnProperty(vote.choice)\<close>, looked up on the tally
  object itself. For an enumerated-choice poll with an option key \<open>hasOwnProperty\<close> the
  initialisation stores 0 under that name, the guard then calls a number, and the
  handler's \<^verbatim>\<open>catch\<close> answers 500: with no votes the results are returned, with one
  stray vote they are not.
\<close>

theorem stray_vote_fails_results_when_a_key_shadows_the_method:
  "bucket_keys shadowing_poll = Some [''hasOwnProperty'', ''b'']
   \<and> ''zzz'' \<notin> set [''hasOwnProperty'', ''b'']
   \<and> on_success total_votes
        (fst (getResults sample_env (sample_world shadowing_poll []) poll_uuid)) = Some 0
   \<and> fst (getResults sample_env (sample_world shadowing_poll [ballot 0 ''zzz'']) poll_uuid)
       = Failure 500 ''Internal server error''
           ''An unexpected error occurred while getting poll results''"
proof -
  let ?w = "sample_world shadowing_poll [ballot 0 ''zzz'']"
  have sel: "select_poll sample_env ?w poll_uuid = Data (shadowing_poll, sample_room)" by simp
  have sel0: "select_poll sample_env (sample_world shadowing_poll []) poll_uuid
                = Data (shadowing_poll, sample_room)" by simp
  have vs: "select_votes sample_env ?w poll_uuid = Some [(''zzz'', 0)]"
    by (simp add: select_votes_def)
  have keys: "bucket_keys shadowing_poll = Some [''hasOwnProperty'', ''b'']" by simp
  have "count_votes (init_zero [''hasOwnProperty'', ''b'']) [(''zzz'', 0)] = None"
    by (intro count_votes_shadowed) (simp_all add: hasOwnProperty_init_zero)
  from GET_results_shadowed [OF uuid_poll sel room_open vs keys this]
  have bad: "fst (getResults sample_env ?w poll_uuid)
       = Failure 500 ''Internal server error''
           ''An unexpected error occurred while getting poll results''"
    by (simp add: getResults_def)
  have safe: "''hasOwnProperty'' \<notin> set [''hasOwnProperty'', ''b'']
                \<or> ([]::(string \<times> int) list) = []"
    by simp
  have nf: "\<not> votes_fetch_fails sample_env" by simp
  from results_entry [OF uuid_poll sel0 room_open select_votes_none [OF nf] keys safe]
  obtain r where "GET_results sample_env poll_uuid (sample_world shadowing_poll [])
      = (Success 200 r, logged (SelectVotes poll_uuid)
           (logged (SelectPoll poll_uuid) (sample_world shadowing_poll [])))"
      "total_votes r = length ([]::(string \<times> int) list)"
    by blast
  then have "on_success total_votes
        (fst (getResults sample_env (sample_world shadowing_poll []) poll_uuid)) = Some 0"
    by (simp add: getResults_def on_success_def)
  with bad keys show ?thesis by simp
qed

end
